theory Spec2Isabelle
  imports Complex_Main
begin

section \<open>The data model of src/index.ts\<close>

text \<open>
  A TypeScript \<^verbatim>\<open>number\<close> is modelled as a real: arithmetic is exact, and NaN and the
  infinities are left out. Strings are HOL strings.

  \<^verbatim>\<open>Config\<close> is declared as \<^verbatim>\<open>Pick<Context, "url" | "pingTimeoutMillis" |
  "pongTimeoutMillis" | "backoffFn"> & {...}\<close>. The four picked properties are the record
  \<open>Picked\<close>, which both \<open>Context\<close> and \<open>Config\<close> extend, so that a property has one name in
  both, as in the source. In a Context, \<open>backoffFn\<close> is a function, as its type says. The
  record is generic in that one field, for \<open>Config\<close> below.
\<close>

type_synonym BackoffFn = "real \<Rightarrow> real \<Rightarrow> real"

record 'f Picked =
  url :: string
  pingTimeoutMillis :: real
  pongTimeoutMillis :: real
  backoffFn :: 'f

record Context = "BackoffFn Picked" +
  reconnectAttempt :: real
  randSeed :: real

text \<open>
  \<^verbatim>\<open>States\<close> is a unionize union whose five variants all carry a Context. unionize builds a
  variant as the flat object \<^verbatim>\<open>{ ...value, tag }\<close>, so a State is a Context with one more
  property, the tag, and \<^verbatim>\<open>States.OPEN(x)\<close> is \<open>x\<lparr>tag := States.OPEN\<rparr>\<close>. The state tag
  \<open>States.OPEN\<close> and the action \<open>Actions.OPEN\<close> are written with their qualifier, as in the
  source.
\<close>

datatype States = INITIAL | CONNECTING | OPEN | CLOSED | RECONNECTING

record State = Context +
  tag :: States

datatype Actions = CONNECT | OPEN | HEARTBEAT | PING_TIMEOUT | PONG_TIMEOUT | CLOSE | RECONNECT

datatype TimeoutKey = ping | pong | connect

text \<open>
  The payloads of the effects, in the order of the source's property lists:
  \<^verbatim>\<open>CONNECT_WS url onOpen onClose onPongMessage\<close> and
  \<^verbatim>\<open>SCHEDULE_TIMEOUT key timeoutMillis onTimeout\<close>.
\<close>

datatype Effects =
    CONNECT_WS string Actions Actions Actions
  | SCHEDULE_TIMEOUT TimeoutKey real Actions
  | SEND_PING
  | CLEAR_TIMEOUT TimeoutKey
  | TRIGGER_ACTION Actions

section \<open>The backoff function\<close>

text \<open>
  \<^verbatim>\<open>calcBackoff(attempt, randSeed, maxVal = 30000)\<close>: the third argument is optional, and
  \<open>None\<close> is the call that leaves it out. The parameter \<^verbatim>\<open>randSeed\<close> is written \<open>seed\<close>, the
  name being taken by the Context field.
\<close>

definition calcBackoff :: "real \<Rightarrow> real \<Rightarrow> real option \<Rightarrow> real" where
  "calcBackoff attempt seed maxVal =
     (if attempt = 0 then 0
      else min (case maxVal of None \<Rightarrow> 30000 | Some v \<Rightarrow> v) (attempt ^ 2 * 1000)
             + 2000 * seed)"

section \<open>The transition function\<close>

definition connect :: "State \<Rightarrow> State \<times> Effects list" where
  "connect state =
     (state\<lparr>tag := States.CONNECTING\<rparr>,
      [CLEAR_TIMEOUT TimeoutKey.connect,
       CONNECT_WS (url state) Actions.OPEN Actions.CLOSE Actions.HEARTBEAT])"

definition clearTimeoutEffect :: "TimeoutKey \<Rightarrow> Effects" where
  "clearTimeoutEffect key = CLEAR_TIMEOUT key"

definition clearAllTimeoutsEffects :: "Effects list" where
  "clearAllTimeoutsEffects =
     [clearTimeoutEffect TimeoutKey.connect,
      clearTimeoutEffect TimeoutKey.ping,
      clearTimeoutEffect TimeoutKey.pong]"

definition scheduleConnect :: "State \<Rightarrow> Effects" where
  "scheduleConnect state =
     SCHEDULE_TIMEOUT TimeoutKey.connect
       (backoffFn state (reconnectAttempt state + 1) (randSeed state))
       Actions.CONNECT"

definition schedulePing :: "State \<Rightarrow> Effects" where
  "schedulePing state =
     SCHEDULE_TIMEOUT TimeoutKey.ping (pingTimeoutMillis state) Actions.PING_TIMEOUT"

definition waitForPong :: "State \<Rightarrow> Effects" where
  "waitForPong state =
     SCHEDULE_TIMEOUT TimeoutKey.pong (pongTimeoutMillis state) Actions.PONG_TIMEOUT"

definition update :: "Actions \<Rightarrow> State \<Rightarrow> State \<times> Effects list" where
  "update action state =
     (case tag state of
        States.INITIAL \<Rightarrow>
          (case action of
             Actions.CONNECT \<Rightarrow> connect state
           | _ \<Rightarrow> (state, []))
      | States.CONNECTING \<Rightarrow>
          (case action of
             Actions.OPEN \<Rightarrow>
               (state\<lparr>reconnectAttempt := 0, tag := States.OPEN\<rparr>, [schedulePing state])
           | Actions.CLOSE \<Rightarrow> (state\<lparr>tag := States.CLOSED\<rparr>, clearAllTimeoutsEffects)
           | _ \<Rightarrow> (state, []))
      | States.OPEN \<Rightarrow>
          (case action of
             Actions.PING_TIMEOUT \<Rightarrow>
               (state, [CLEAR_TIMEOUT TimeoutKey.ping, SEND_PING, waitForPong state])
           | Actions.PONG_TIMEOUT \<Rightarrow>
               (state, [TRIGGER_ACTION Actions.CLOSE, TRIGGER_ACTION Actions.RECONNECT])
           | Actions.HEARTBEAT \<Rightarrow>
               (state,
                [CLEAR_TIMEOUT TimeoutKey.ping, CLEAR_TIMEOUT TimeoutKey.pong,
                 schedulePing state])
           | Actions.CLOSE \<Rightarrow> (state\<lparr>tag := States.CLOSED\<rparr>, clearAllTimeoutsEffects)
           | _ \<Rightarrow> (state, []))
      | States.CLOSED \<Rightarrow>
          (case action of
             Actions.RECONNECT \<Rightarrow>
               (state\<lparr>reconnectAttempt := reconnectAttempt state + 1,
                      tag := States.RECONNECTING\<rparr>,
                [scheduleConnect state])
           | _ \<Rightarrow> (state, []))
      | States.RECONNECTING \<Rightarrow>
          (case action of
             Actions.CONNECT \<Rightarrow> connect state
           | _ \<Rightarrow> (state, [])))"

section \<open>The transition table of the specification\<close>

text \<open>
  The nine rows of the table in section 4.2 of the specification, written from its words and
  not from the code: the pair of source state and action, and the target state with the
  ordered effects. In the row of CLOSED and RECONNECT, \<^verbatim>\<open>reconnectAttempt+1\<close> in the delay is
  read on the source state.
\<close>

definition transitionTable :: "((States \<times> Actions) \<times> (State \<Rightarrow> State \<times> Effects list)) list" where
  "transitionTable =
     [((States.INITIAL, Actions.CONNECT), \<lambda>s.
         (s\<lparr>tag := States.CONNECTING\<rparr>,
          [CLEAR_TIMEOUT TimeoutKey.connect,
           CONNECT_WS (url s) Actions.OPEN Actions.CLOSE Actions.HEARTBEAT])),
      ((States.CONNECTING, Actions.OPEN), \<lambda>s.
         (s\<lparr>reconnectAttempt := 0, tag := States.OPEN\<rparr>,
          [SCHEDULE_TIMEOUT TimeoutKey.ping (pingTimeoutMillis s) Actions.PING_TIMEOUT])),
      ((States.CONNECTING, Actions.CLOSE), \<lambda>s.
         (s\<lparr>tag := States.CLOSED\<rparr>,
          [CLEAR_TIMEOUT TimeoutKey.connect, CLEAR_TIMEOUT TimeoutKey.ping,
           CLEAR_TIMEOUT TimeoutKey.pong])),
      ((States.OPEN, Actions.PING_TIMEOUT), \<lambda>s.
         (s,
          [CLEAR_TIMEOUT TimeoutKey.ping, SEND_PING,
           SCHEDULE_TIMEOUT TimeoutKey.pong (pongTimeoutMillis s) Actions.PONG_TIMEOUT])),
      ((States.OPEN, Actions.PONG_TIMEOUT), \<lambda>s.
         (s, [TRIGGER_ACTION Actions.CLOSE, TRIGGER_ACTION Actions.RECONNECT])),
      ((States.OPEN, Actions.HEARTBEAT), \<lambda>s.
         (s,
          [CLEAR_TIMEOUT TimeoutKey.ping, CLEAR_TIMEOUT TimeoutKey.pong,
           SCHEDULE_TIMEOUT TimeoutKey.ping (pingTimeoutMillis s) Actions.PING_TIMEOUT])),
      ((States.OPEN, Actions.CLOSE), \<lambda>s.
         (s\<lparr>tag := States.CLOSED\<rparr>,
          [CLEAR_TIMEOUT TimeoutKey.connect, CLEAR_TIMEOUT TimeoutKey.ping,
           CLEAR_TIMEOUT TimeoutKey.pong])),
      ((States.CLOSED, Actions.RECONNECT), \<lambda>s.
         (s\<lparr>reconnectAttempt := reconnectAttempt s + 1, tag := States.RECONNECTING\<rparr>,
          [SCHEDULE_TIMEOUT TimeoutKey.connect
             (backoffFn s (reconnectAttempt s + 1) (randSeed s)) Actions.CONNECT])),
      ((States.RECONNECTING, Actions.CONNECT), \<lambda>s.
         (s\<lparr>tag := States.CONNECTING\<rparr>,
          [CLEAR_TIMEOUT TimeoutKey.connect,
           CONNECT_WS (url s) Actions.OPEN Actions.CLOSE Actions.HEARTBEAT]))]"

fun isConnectWs :: "Effects \<Rightarrow> bool" where
  "isConnectWs (CONNECT_WS _ _ _ _) = True"
| "isConnectWs _ = False"

fun isTrigger :: "Effects \<Rightarrow> bool" where
  "isTrigger (TRIGGER_ACTION _) = True"
| "isTrigger _ = False"

section \<open>The machine and its surroundings\<close>

text \<open>
  \<^verbatim>\<open>wsMachine\<close> closes over its mutable variables: the socket \<^verbatim>\<open>ws\<close>, the atom
  \<^verbatim>\<open>wsState\<close>, the maps \<^verbatim>\<open>timeouts\<close> and \<^verbatim>\<open>wsHandlers\<close>. With \<open>changeHandler\<close>, which
  tells whether the atom has the change handler \<^verbatim>\<open>"wsStateHandler"\<close>, they are the first five
  fields of the record \<open>machine\<close>, each operation taking the record and returning it updated.
  The other fields are what the closure acts on:

  \<^item> \<open>sockets\<close>: the WebSocket objects made so far, by number (\<open>socketCount\<close> of them); a value
    of \<^verbatim>\<open>ws\<close> is such a number.
  \<^item> \<open>accepts\<close>: the urls for which \<^verbatim>\<open>new WebSocket(url)\<close> of the runtime returns a socket. For
    any other url the constructor throws a SyntaxError.
  \<^item> \<open>pending\<close>: the timers of the JavaScript runtime that are started and have neither fired
    nor been cleared, each with its handle and the payload \<^verbatim>\<open>t\<close> of the SCHEDULE_TIMEOUT
    effect that its callback \<^verbatim>\<open>() => transition(t.onTimeout)\<close> holds. \<^verbatim>\<open>setTimeout\<close> hands out
    the handles \<open>0, 1, 2, \<dots>\<close>, counted by \<open>timeoutCount\<close>; every handle counts as truthy in
    \<^verbatim>\<open>if (t)\<close>, as the objects of Node and the positive numbers of a browser are.
  \<^item> \<open>stateChanges\<close> and \<open>messages\<close>: the calls made so far to \<^verbatim>\<open>config.onStateChange\<close> and
    \<^verbatim>\<open>config.onMessage\<close>, in order. The callbacks themselves are taken not to call back
    into the machine.

  \<open>Config\<close> is the object that \<^verbatim>\<open>wsMachine\<close> is called with. Its type makes \<^verbatim>\<open>backoffFn\<close> a
  required property; a caller that the type checker does not see can leave it out, and
  \<open>None\<close> is the object without the property. \<open>onStateChange\<close> tells whether the optional
  observer was given; \<^verbatim>\<open>onMessage\<close> is required, and its calls are the field \<open>messages\<close>.
\<close>

record Config = "BackoffFn option Picked" +
  pingMsg :: "string option"
  onStateChange :: bool

datatype WsMessageKeys = WsOpen | WsClose | WsMessage

text \<open>
  The three listeners that CONNECT_WS makes are closures over the effect's actions. The
  number is the socket they were made for: closures of two CONNECT_WS effects are different
  objects, also when they hold the same action.
\<close>

datatype Handler = onOpen nat Actions | onClose nat Actions | onMessage nat Actions

record WebSocket =
  socketUrl :: string
  listeners :: "(WsMessageKeys \<times> Handler) list"
  closeCalled :: bool
  sent :: "string list"

type_synonym Timeout = "TimeoutKey \<times> real \<times> Actions"

record machine =
  ws :: "nat option"
  wsState :: State
  timeouts :: "TimeoutKey \<Rightarrow> nat option"
  wsHandlers :: "WsMessageKeys \<Rightarrow> Handler option"
  changeHandler :: bool
  sockets :: "nat \<Rightarrow> WebSocket"
  socketCount :: nat
  pending :: "(nat \<times> Timeout) list"
  timeoutCount :: nat
  accepts :: "string \<Rightarrow> bool"
  stateChanges :: "(State \<times> State) list"
  messages :: "string list"

text \<open>
  \<^verbatim>\<open>swap\<close> of @libre/atom stores the new value and then runs the change handlers with the
  previous and the current value, also when the two are equal.
\<close>

definition swap :: "(State \<Rightarrow> State) \<Rightarrow> machine \<Rightarrow> machine" where
  "swap f m =
     (let previous = wsState m; current = f previous
      in m\<lparr>wsState := current,
           stateChanges :=
             (if changeHandler m then stateChanges m @ [(previous, current)]
              else stateChanges m)\<rparr>)"

definition addEventListener :: "nat \<Rightarrow> WsMessageKeys \<times> Handler \<Rightarrow> machine \<Rightarrow> machine" where
  "addEventListener webSocket l m =
     m\<lparr>sockets := (sockets m)
          (webSocket := (sockets m webSocket)
             \<lparr>listeners := listeners (sockets m webSocket) @ [l]\<rparr>),
       wsHandlers := (wsHandlers m)(fst l \<mapsto> snd l)\<rparr>"

definition removeEventListeners :: "nat \<Rightarrow> machine \<Rightarrow> machine" where
  "removeEventListeners webSocket m =
     m\<lparr>sockets := (sockets m)
          (webSocket := (sockets m webSocket)
             \<lparr>listeners :=
                filter (\<lambda>l. wsHandlers m (fst l) \<noteq> Some (snd l))
                  (listeners (sockets m webSocket))\<rparr>)\<rparr>"

definition clearTimeout :: "nat \<Rightarrow> machine \<Rightarrow> machine" where
  "clearTimeout t m = m\<lparr>pending := filter (\<lambda>p. fst p \<noteq> t) (pending m)\<rparr>"

definition nukeTimeout :: "TimeoutKey \<Rightarrow> machine \<Rightarrow> machine" where
  "nukeTimeout k m = (case timeouts m k of None \<Rightarrow> m | Some t \<Rightarrow> clearTimeout t m)"

text \<open>
  \<^verbatim>\<open>clearTimeouts\<close> visits the entries of the map in the order of their insertion; the order
  makes no difference to what is cleared, and a key without an entry is skipped by
  \<open>nukeTimeout\<close>.
\<close>

definition clearTimeouts :: "machine \<Rightarrow> machine" where
  "clearTimeouts m =
     nukeTimeout TimeoutKey.pong (nukeTimeout TimeoutKey.ping (nukeTimeout TimeoutKey.connect m))"

definition closeSocket :: "nat \<Rightarrow> machine \<Rightarrow> machine" where
  "closeSocket webSocket m =
     m\<lparr>sockets := (sockets m)(webSocket := (sockets m webSocket)\<lparr>closeCalled := True\<rparr>)\<rparr>"

text \<open>
  An exception leaves the machine as it is at the throw and skips what would have run
  next, up to the caller of the facade or to the event loop: nothing in the source catches.
  An operation that can throw has an \<open>outcome\<close>: the machine it returns with, or the error
  and the machine at the throw.
\<close>

datatype JsError = TypeError | SyntaxError

datatype outcome = Returned machine | Threw JsError machine

fun after :: "outcome \<Rightarrow> machine" where
  "after (Returned m) = m"
| "after (Threw _ m) = m"

fun thrown :: "outcome \<Rightarrow> JsError option" where
  "thrown (Returned _) = None"
| "thrown (Threw e _) = Some e"

text \<open>The four effects that do not re-enter the machine, as \<^verbatim>\<open>handleEffect\<close> performs them.\<close>

definition connectWs :: "string \<Rightarrow> Actions \<Rightarrow> Actions \<Rightarrow> Actions \<Rightarrow> machine \<Rightarrow> outcome" where
  "connectWs u a_open a_close a_pong m =
     (let m1 = (case ws m of
                  None \<Rightarrow> m
                | Some old \<Rightarrow> closeSocket old (clearTimeouts (removeEventListeners old m)))
      in if \<not> accepts m1 u then Threw SyntaxError m1
         else
           let new = socketCount m1;
               m2 = m1\<lparr>sockets := (sockets m1)
                      (new := \<lparr>socketUrl = u, listeners = [], closeCalled = False, sent = []\<rparr>),
                  socketCount := Suc new,
                  ws := Some new\<rparr>
           in Returned
                (addEventListener new (WsMessage, onMessage new a_pong)
                   (addEventListener new (WsClose, onClose new a_close)
                      (addEventListener new (WsOpen, onOpen new a_open) m2))))"

definition scheduleTimeout :: "TimeoutKey \<Rightarrow> real \<Rightarrow> Actions \<Rightarrow> machine \<Rightarrow> machine" where
  "scheduleTimeout k millis a m =
     m\<lparr>pending := pending m @ [(timeoutCount m, k, millis, a)],
       timeoutCount := Suc (timeoutCount m),
       timeouts := (timeouts m)(k \<mapsto> timeoutCount m)\<rparr>"

definition sendPing :: "Config \<Rightarrow> machine \<Rightarrow> machine" where
  "sendPing config m =
     (case ws m of
        None \<Rightarrow> m
      | Some w \<Rightarrow>
          m\<lparr>sockets := (sockets m)
               (w := (sockets m w)
                  \<lparr>sent := sent (sockets m w)
                     @ [case pingMsg config of None \<Rightarrow> ''ping'' | Some p \<Rightarrow> p]\<rparr>)\<rparr>)"

text \<open>
  The call \<^verbatim>\<open>update(a, deref(wsState))\<close> in \<^verbatim>\<open>transition\<close>. The state in the atom has the
  \<^verbatim>\<open>backoffFn\<close> that the spread in \<^verbatim>\<open>wsMachine\<close> copied from the config object, and no
  transition changes it. With a Context of its type the call is \<open>update\<close>. Without the
  property, the one expression that reads it, \<^verbatim>\<open>state.backoffFn(...)\<close> in
  \<^verbatim>\<open>scheduleConnect\<close>, calls \<^verbatim>\<open>undefined\<close> and raises a TypeError; \<open>update\<close> evaluates it in
  its branch of CLOSED and RECONNECT and nowhere else.
\<close>

definition callUpdate :: "Config \<Rightarrow> Actions \<Rightarrow> State \<Rightarrow> JsError + State \<times> Effects list" where
  "callUpdate config a state =
     (if backoffFn config = None \<and> tag state = States.CLOSED \<and> a = Actions.RECONNECT
      then Inl TypeError
      else Inr (update a state))"

text \<open>
  \<^verbatim>\<open>transition\<close>, \<^verbatim>\<open>handleEffect\<close> and \<^verbatim>\<open>handleEffects\<close> call each other: a TRIGGER_ACTION
  effect re-enters \<^verbatim>\<open>transition\<close> before the rest of the batch runs. The recursion ends
  because only PONG_TIMEOUT makes \<open>update\<close> emit TRIGGER_ACTION, and only for CLOSE and
  RECONNECT; the two weights below measure that.
\<close>

fun triggerWeight :: "Actions \<Rightarrow> nat" where
  "triggerWeight Actions.PONG_TIMEOUT = 13"
| "triggerWeight _ = 4"

fun effectWeight :: "Effects \<Rightarrow> nat" where
  "effectWeight (TRIGGER_ACTION a) = Suc (triggerWeight a)"
| "effectWeight _ = 0"

function transition :: "Config \<Rightarrow> Actions \<Rightarrow> machine \<Rightarrow> outcome"
  and handleEffect :: "Config \<Rightarrow> Effects \<Rightarrow> machine \<Rightarrow> outcome"
  and handleEffects :: "Config \<Rightarrow> Effects list \<Rightarrow> machine \<Rightarrow> outcome"
where
  "transition config a m =
     (case callUpdate config a (wsState m) of
        Inl e \<Rightarrow> Threw e m
      | Inr (newState, effects) \<Rightarrow> handleEffects config effects (swap (\<lambda>_. newState) m))"
| "handleEffect config (CONNECT_WS u a_open a_close a_pong) m =
     connectWs u a_open a_close a_pong m"
| "handleEffect config (SCHEDULE_TIMEOUT k millis a) m = Returned (scheduleTimeout k millis a m)"
| "handleEffect config SEND_PING m = Returned (sendPing config m)"
| "handleEffect config (CLEAR_TIMEOUT k) m = Returned (nukeTimeout k m)"
| "handleEffect config (TRIGGER_ACTION a) m = transition config a m"
| "handleEffects config [] m = Returned m"
| "handleEffects config (e # es) m =
     (case handleEffect config e m of
        Returned m' \<Rightarrow> handleEffects config es m'
      | Threw err m' \<Rightarrow> Threw err m')"
  by pat_completeness auto
termination
  apply (relation "measure (\<lambda>x. case x of
          Inl (_, a, _) \<Rightarrow> triggerWeight a
        | Inr (Inl (_, e, _)) \<Rightarrow> effectWeight e
        | Inr (Inr (_, es, _)) \<Rightarrow> sum_list (map (\<lambda>e. Suc (effectWeight e)) es))")
      apply simp
  subgoal premises prems for config a m x newState effects
  proof -
    have "sum_list (map (\<lambda>e. Suc (effectWeight e)) (snd (update a s))) < triggerWeight a" for s
      by (cases "tag s"; cases a)
         (simp_all add: update_def connect_def clearAllTimeoutsEffects_def
            clearTimeoutEffect_def schedulePing_def waitForPong_def scheduleConnect_def)
    from this [of "wsState m"] prems show ?thesis
      by (auto simp: callUpdate_def split: if_splits)
  qed
    apply simp_all
  done

declare transition.simps [simp del]

section \<open>The facade and the events that reach the machine\<close>

text \<open>
  \<^verbatim>\<open>wsMachine(config)\<close>, with \<open>r\<close> for the value of \<^verbatim>\<open>Math.random()\<close> and \<open>acc\<close> for the urls
  that the WebSocket constructor of the runtime takes. The spread
  \<^verbatim>\<open>{ ...config, reconnectAttempt: 0, randSeed }\<close> copies the picked properties. A config
  object without \<^verbatim>\<open>backoffFn\<close> gives a state object without it; in the record the field
  then holds HOL's unspecified function, which nothing applies: \<open>callUpdate\<close> raises the
  TypeError where the source would read the property.
\<close>

definition wsMachine :: "Config \<Rightarrow> real \<Rightarrow> (string \<Rightarrow> bool) \<Rightarrow> machine" where
  "wsMachine config r acc =
     \<lparr>ws = None,
      wsState =
        \<lparr>url = url config, pingTimeoutMillis = pingTimeoutMillis config,
         pongTimeoutMillis = pongTimeoutMillis config,
         backoffFn = (case backoffFn config of Some f \<Rightarrow> f | None \<Rightarrow> undefined),
         reconnectAttempt = 0, randSeed = r, tag = States.INITIAL\<rparr>,
      timeouts = Map.empty,
      wsHandlers = Map.empty,
      changeHandler = onStateChange config,
      sockets = (\<lambda>_. \<lparr>socketUrl = [], listeners = [], closeCalled = False, sent = []\<rparr>),
      socketCount = 0,
      pending = [],
      timeoutCount = 0,
      accepts = acc,
      stateChanges = [],
      messages = []\<rparr>"

text \<open>The three members of the object that \<^verbatim>\<open>wsMachine\<close> returns.\<close>

definition wsMachine_connect :: "Config \<Rightarrow> machine \<Rightarrow> outcome" where
  "wsMachine_connect config m = transition config Actions.CONNECT m"

definition currentState :: "machine \<Rightarrow> State" where
  "currentState m = wsState m"

definition disconnect :: "machine \<Rightarrow> machine" where
  "disconnect m =
     (let m1 = m\<lparr>changeHandler := False\<rparr>
      in case ws m1 of
           None \<Rightarrow> m1
         | Some w \<Rightarrow>
             closeSocket w
               (swap (\<lambda>currState. currState\<lparr>reconnectAttempt := 0, tag := States.INITIAL\<rparr>)
                  (clearTimeouts (removeEventListeners w m1))))"

text \<open>
  A call of a member of the returned object by its name. The object literal has the three
  keys above and no other; calling a property that is not there raises a TypeError.
\<close>

definition callMember :: "Config \<Rightarrow> string \<Rightarrow> machine \<Rightarrow> outcome" where
  "callMember config name m =
     (if name = ''connect'' then wsMachine_connect config m
      else if name = ''currentState'' then Returned m
      else if name = ''disconnect'' then Returned (disconnect m)
      else Threw TypeError m)"

text \<open>
  The listeners, as CONNECT_WS defines them; \<open>msg\<close> is \<^verbatim>\<open>ev.data\<close> of a message event.
\<close>

definition runHandler :: "Config \<Rightarrow> Handler \<Rightarrow> string \<Rightarrow> machine \<Rightarrow> outcome" where
  "runHandler config h msg m =
     (case h of
        onOpen _ a \<Rightarrow> transition config a m
      | onClose _ a \<Rightarrow>
          (case transition config a m of
             Returned m' \<Rightarrow> transition config Actions.RECONNECT m'
           | Threw err m' \<Rightarrow> Threw err m')
      | onMessage _ a \<Rightarrow>
          transition config a
            (if msg \<noteq> ''pong'' then m\<lparr>messages := messages m @ [msg]\<rparr> else m))"

text \<open>
  What happens to the machine from outside: a call of \<^verbatim>\<open>connect\<close> or \<^verbatim>\<open>disconnect\<close>, a
  pending timer that fires, an event of a socket. A socket runs the listeners it has for the
  event; a timer that fires is no longer pending and runs its callback. Any socket may
  deliver any event at any time, which is more than a WebSocket does. An exception that a
  call or a callback throws ends it, and the machine goes on from where it was thrown.
\<close>

datatype Event =
    CallConnect
  | CallDisconnect
  | TimeoutFires nat
  | SocketOpen nat
  | SocketClose nat
  | SocketMessage nat string

definition dispatchEvent :: "Config \<Rightarrow> nat \<Rightarrow> WsMessageKeys \<Rightarrow> string \<Rightarrow> machine \<Rightarrow> machine" where
  "dispatchEvent config w k d m =
     fold (\<lambda>l m'. after (runHandler config (snd l) d m'))
       (filter (\<lambda>l. fst l = k) (listeners (sockets m w))) m"

definition fireTimeout :: "Config \<Rightarrow> nat \<Rightarrow> machine \<Rightarrow> machine" where
  "fireTimeout config t m =
     (case map_of (pending m) t of
        None \<Rightarrow> m
      | Some (k, millis, a) \<Rightarrow> after (transition config a (clearTimeout t m)))"

definition step :: "Config \<Rightarrow> Event \<Rightarrow> machine \<Rightarrow> machine" where
  "step config ev m =
     (case ev of
        CallConnect \<Rightarrow> after (wsMachine_connect config m)
      | CallDisconnect \<Rightarrow> disconnect m
      | TimeoutFires t \<Rightarrow> fireTimeout config t m
      | SocketOpen w \<Rightarrow> dispatchEvent config w WsOpen [] m
      | SocketClose w \<Rightarrow> dispatchEvent config w WsClose [] m
      | SocketMessage w d \<Rightarrow> dispatchEvent config w WsMessage d m)"

definition run :: "Config \<Rightarrow> Event list \<Rightarrow> machine \<Rightarrow> machine" where
  "run config evs m = fold (step config) evs m"

text \<open>
  The configuration that the test file gives to \<^verbatim>\<open>wsMachine\<close>, and a WebSocket constructor
  that takes the urls of the schemes ws and wss and throws on every other.
\<close>

definition testConfig :: Config where
  "testConfig =
     \<lparr>url = ''ws://localhost:1234'', pingTimeoutMillis = 5, pongTimeoutMillis = 5,
      backoffFn = Some (\<lambda>attempt seed. calcBackoff attempt seed None),
      pingMsg = None, onStateChange = True\<rparr>"

definition wsSchemes :: "string \<Rightarrow> bool" where
  "wsSchemes u \<longleftrightarrow> take 5 u = ''ws://'' \<or> take 6 u = ''wss://''"

section \<open>The timers alone\<close>

text \<open>
  The machine reduced to its state and its timers, with no socket and no interpreter: the
  live timers are a list of keys, each with the action it injects when it fires. Of an
  effect list of \<open>update\<close>, SCHEDULE_TIMEOUT adds its key, CLEAR_TIMEOUT removes the timers of
  its key, TRIGGER_ACTION is the transition of its action, and the other effects do nothing
  to the timers. A timer that fires is consumed and its action is a transition.
  \<open>tmOverlap\<close> is set when SCHEDULE_TIMEOUT adds a key that is live. This is the model in
  which the specification states that there is at most one live timer for a key; the
  interpreter above has more ways to clear a timer (\<^verbatim>\<open>clearTimeouts\<close> in CONNECT_WS and in
  \<^verbatim>\<open>disconnect\<close>), which this model leaves out.
\<close>

record timerModel =
  tmState :: State
  tmLive :: "(TimeoutKey \<times> Actions) list"
  tmOverlap :: bool

function timerTransition :: "Actions \<Rightarrow> timerModel \<Rightarrow> timerModel"
  and timerEffect :: "Effects \<Rightarrow> timerModel \<Rightarrow> timerModel"
  and timerEffects :: "Effects list \<Rightarrow> timerModel \<Rightarrow> timerModel"
where
  "timerTransition a t =
     (case update a (tmState t) of
        (newState, effects) \<Rightarrow> timerEffects effects (t\<lparr>tmState := newState\<rparr>))"
| "timerEffect (SCHEDULE_TIMEOUT k millis a) t =
     t\<lparr>tmLive := tmLive t @ [(k, a)],
       tmOverlap := (tmOverlap t \<or> k \<in> set (map fst (tmLive t)))\<rparr>"
| "timerEffect (CLEAR_TIMEOUT k) t = t\<lparr>tmLive := filter (\<lambda>l. fst l \<noteq> k) (tmLive t)\<rparr>"
| "timerEffect (TRIGGER_ACTION a) t = timerTransition a t"
| "timerEffect (CONNECT_WS u a_open a_close a_pong) t = t"
| "timerEffect SEND_PING t = t"
| "timerEffects [] t = t"
| "timerEffects (e # es) t = timerEffects es (timerEffect e t)"
  by pat_completeness auto
termination
  apply (relation "measure (\<lambda>x. case x of
          Inl (a, _) \<Rightarrow> triggerWeight a
        | Inr (Inl (e, _)) \<Rightarrow> effectWeight e
        | Inr (Inr (es, _)) \<Rightarrow> sum_list (map (\<lambda>e. Suc (effectWeight e)) es))")
      apply simp
  subgoal premises prems for a t newState effects
  proof -
    have "sum_list (map (\<lambda>e. Suc (effectWeight e)) (snd (update a s))) < triggerWeight a" for s
      by (cases "tag s"; cases a)
         (simp_all add: update_def connect_def clearAllTimeoutsEffects_def
            clearTimeoutEffect_def schedulePing_def waitForPong_def scheduleConnect_def)
    from this [of "tmState t"] prems [symmetric] show ?thesis by simp
  qed
    apply simp_all
  done

declare timerTransition.simps [simp del]

text \<open>
  An action arrives from outside (the facade, a socket), or the live timer of a key fires.
\<close>

datatype TimerEvent = Arrives Actions | Fires TimeoutKey

definition timerStep :: "TimerEvent \<Rightarrow> timerModel \<Rightarrow> timerModel" where
  "timerStep ev t =
     (case ev of
        Arrives a \<Rightarrow> timerTransition a t
      | Fires k \<Rightarrow>
          (case map_of (tmLive t) k of
             None \<Rightarrow> t
           | Some a \<Rightarrow> timerTransition a (t\<lparr>tmLive := remove1 (k, a) (tmLive t)\<rparr>)))"

definition timerRun :: "TimerEvent list \<Rightarrow> State \<Rightarrow> timerModel" where
  "timerRun evs state =
     fold timerStep evs \<lparr>tmState = state, tmLive = [], tmOverlap = False\<rparr>"

section \<open>Invariants\<close>

text \<open>
  \<open>live\<close> lists the keys of the pending timers. \<open>timersOk\<close> says that every pending timer is
  the one whose handle the map \<^verbatim>\<open>timeouts\<close> holds for its key, and that it carries the
  action of its key; \<open>tagOk\<close> says which timers can be pending under each state tag, and what
  holds as long as no socket was made; \<open>delayOk\<close> says what a pending connect timer waits
  for. \<open>timerOk\<close> is the invariant of the timers alone.
\<close>

definition live :: "machine \<Rightarrow> TimeoutKey list" where
  "live m = map (fst \<circ> snd) (pending m)"

fun timeoutAction :: "TimeoutKey \<Rightarrow> Actions" where
  "timeoutAction TimeoutKey.ping = Actions.PING_TIMEOUT"
| "timeoutAction TimeoutKey.pong = Actions.PONG_TIMEOUT"
| "timeoutAction TimeoutKey.connect = Actions.CONNECT"

fun handlerOk :: "Handler \<Rightarrow> bool" where
  "handlerOk (onOpen _ a) = (a = Actions.OPEN)"
| "handlerOk (onClose _ a) = (a = Actions.CLOSE)"
| "handlerOk (onMessage _ a) = (a = Actions.HEARTBEAT)"

definition timersOk :: "machine \<Rightarrow> bool" where
  "timersOk m \<longleftrightarrow>
     distinct (live m)
     \<and> (\<forall>p \<in> set (pending m).
           timeouts m (fst (snd p)) = Some (fst p)
           \<and> snd (snd (snd p)) = timeoutAction (fst (snd p)))
     \<and> (\<forall>k h. timeouts m k = Some h \<longrightarrow> h < timeoutCount m)
     \<and> (\<forall>k k' h. timeouts m k = Some h \<and> timeouts m k' = Some h \<longrightarrow> k = k')
     \<and> (\<forall>w. \<forall>l \<in> set (listeners (sockets m w)). handlerOk (snd l))"

definition tagOk :: "machine \<Rightarrow> bool" where
  "tagOk m \<longleftrightarrow>
     (case tag (wsState m) of
        States.INITIAL \<Rightarrow> live m = []
      | States.CONNECTING \<Rightarrow> live m = []
      | States.OPEN \<Rightarrow> live m = [] \<or> live m = [TimeoutKey.ping] \<or> live m = [TimeoutKey.pong]
      | States.CLOSED \<Rightarrow> live m = []
      | States.RECONNECTING \<Rightarrow> live m = [] \<or> live m = [TimeoutKey.connect])
     \<and> (ws m = None \<longrightarrow>
           (tag (wsState m) = States.INITIAL
            \<or> tag (wsState m) = States.CONNECTING \<and> \<not> accepts m (url (wsState m)))
           \<and> reconnectAttempt (wsState m) = 0
           \<and> (\<forall>w. listeners (sockets m w) = []))"

definition delayOk :: "machine \<Rightarrow> bool" where
  "delayOk m \<longleftrightarrow>
     (\<forall>p \<in> set (pending m). fst (snd p) = TimeoutKey.connect \<longrightarrow>
        fst (snd (snd p))
          = backoffFn (wsState m) (reconnectAttempt (wsState m)) (randSeed (wsState m)))"

definition machineOk :: "machine \<Rightarrow> bool" where
  "machineOk m \<longleftrightarrow> timersOk m \<and> tagOk m \<and> delayOk m"

definition timerOk :: "timerModel \<Rightarrow> bool" where
  "timerOk t \<longleftrightarrow>
     \<not> tmOverlap t
     \<and> (\<forall>l \<in> set (tmLive t). snd l = timeoutAction (fst l))
     \<and> (case tag (tmState t) of
          States.INITIAL \<Rightarrow> tmLive t = []
        | States.CONNECTING \<Rightarrow> tmLive t = []
        | States.OPEN \<Rightarrow>
            tmLive t = [] \<or> tmLive t = [(TimeoutKey.ping, Actions.PING_TIMEOUT)]
            \<or> tmLive t = [(TimeoutKey.pong, Actions.PONG_TIMEOUT)]
        | States.CLOSED \<Rightarrow> tmLive t = []
        | States.RECONNECTING \<Rightarrow>
            tmLive t = [] \<or> tmLive t = [(TimeoutKey.connect, Actions.CONNECT)])"

section \<open>The backoff formula\<close>

text \<open>
  C2. At attempt 0 the delay is 0 for every seed and cap. From attempt 1 on it is
  \<open>min maxVal (attempt\<^sup>2 * 1000) + 2000 * randSeed\<close>, with 30000 for a cap that is left
  out: the cap is taken first and the jitter added to it, so the result can lie above the
  cap (31000 at attempt 6 and seed 0.5 under the default cap). The two values of the
  test file, \<^verbatim>\<open>calcBackoff(1, 0.5)\<close> and \<^verbatim>\<open>calcBackoff(6, 0.5, 60000)\<close>, are 2000 and
  37000.
\<close>

theorem calcBackoff_formula:
  "(\<forall>seed maxVal. calcBackoff 0 seed maxVal = 0)
   \<and> (\<forall>attempt seed maxVal. 1 \<le> attempt \<longrightarrow>
        calcBackoff attempt seed (Some maxVal)
          = min maxVal (attempt ^ 2 * 1000) + 2000 * seed)
   \<and> (\<forall>attempt seed. 1 \<le> attempt \<longrightarrow>
        calcBackoff attempt seed None
          = min 30000 (attempt ^ 2 * 1000) + 2000 * seed)
   \<and> calcBackoff 1 0.5 None = 2000
   \<and> calcBackoff 6 0.5 (Some 60000) = 37000
   \<and> calcBackoff 6 0.5 None = 31000"
  by (simp add: calcBackoff_def)

theorem calcBackoff_formula_witness:
  "(1::real) \<le> 4 \<and> calcBackoff 4 0.25 (Some 10000) = 10500 \<and> calcBackoff 4 0.25 None = 16500"
proof -
  have h: "(1::real) \<le> 4" by simp
  from calcBackoff_formula
  have a: "calcBackoff 4 0.25 (Some 10000) = min 10000 (4 ^ 2 * 1000) + 2000 * 0.25"
    and b: "calcBackoff 4 0.25 None = min 30000 (4 ^ 2 * 1000) + 2000 * 0.25"
    using h by blast+
  show ?thesis using h a b by simp
qed

section \<open>The transition function against the table\<close>

lemmas update_defs = update_def connect_def clearAllTimeoutsEffects_def clearTimeoutEffect_def
  schedulePing_def waitForPong_def scheduleConnect_def

text \<open>
  C1. \<open>update\<close> is a total function of the action and the state. On each of the nine pairs of
  state tag and action that the table of the specification lists it returns the state and
  the ordered effects of that row, and on every other pair it returns the state it was given
  and no effect.
\<close>

theorem update_follows_table:
  "update action state =
     (case map_of transitionTable (tag state, action) of
        Some row \<Rightarrow> row state
      | None \<Rightarrow> (state, []))
   \<and> length transitionTable = 9 \<and> distinct (map fst transitionTable)"
  by (cases "tag state"; cases action) (simp_all add: update_defs transitionTable_def)

theorem update_follows_table_witness:
  "map_of transitionTable (States.CLOSED, Actions.RECONNECT) \<noteq> None
   \<and> update Actions.RECONNECT (wsState (wsMachine testConfig 0.5 wsSchemes)\<lparr>tag := States.CLOSED\<rparr>)
       = (wsState (wsMachine testConfig 0.5 wsSchemes)\<lparr>reconnectAttempt := 1, tag := States.RECONNECTING\<rparr>,
          [SCHEDULE_TIMEOUT TimeoutKey.connect 2000 Actions.CONNECT])
   \<and> map_of transitionTable (States.CLOSED, Actions.CONNECT) = None
   \<and> update Actions.CONNECT (wsState (wsMachine testConfig 0.5 wsSchemes)\<lparr>tag := States.CLOSED\<rparr>)
       = (wsState (wsMachine testConfig 0.5 wsSchemes)\<lparr>tag := States.CLOSED\<rparr>, [])"
  using update_follows_table
          [of Actions.RECONNECT "wsState (wsMachine testConfig 0.5 wsSchemes)\<lparr>tag := States.CLOSED\<rparr>"]
        update_follows_table
          [of Actions.CONNECT "wsState (wsMachine testConfig 0.5 wsSchemes)\<lparr>tag := States.CLOSED\<rparr>"]
  by (simp add: transitionTable_def wsMachine_def testConfig_def calcBackoff_def)

text \<open>
  C10. The effects of \<open>update\<close> hold a CONNECT_WS exactly when the action is CONNECT and the
  state is INITIAL or RECONNECTING. These are the transitions that enter CONNECTING, and
  there CONNECT_WS occurs once, as the last effect, with OPEN, CLOSE and HEARTBEAT as its
  three actions and the url of the state.
\<close>

theorem connect_ws_only_on_connect:
  "((\<exists>e \<in> set (snd (update action state)). isConnectWs e)
      \<longleftrightarrow> (tag state = States.INITIAL \<or> tag state = States.RECONNECTING)
            \<and> action = Actions.CONNECT)
   \<and> ((\<exists>e \<in> set (snd (update action state)). isConnectWs e) \<longrightarrow>
        tag (fst (update action state)) = States.CONNECTING
        \<and> length (filter isConnectWs (snd (update action state))) = 1
        \<and> last (snd (update action state))
            = CONNECT_WS (url state) Actions.OPEN Actions.CLOSE Actions.HEARTBEAT)
   \<and> (tag (fst (update action state)) = States.CONNECTING \<and> tag state \<noteq> States.CONNECTING
        \<longrightarrow> (\<exists>e \<in> set (snd (update action state)). isConnectWs e))"
  by (cases "tag state"; cases action) (simp_all add: update_defs)

theorem connect_ws_only_on_connect_witness:
  "(\<exists>e \<in> set (snd (update Actions.CONNECT (wsState (wsMachine testConfig 0.5 wsSchemes)))). isConnectWs e)
   \<and> tag (wsState (wsMachine testConfig 0.5 wsSchemes)) = States.INITIAL
   \<and> snd (update Actions.CONNECT (wsState (wsMachine testConfig 0.5 wsSchemes)))
       = [CLEAR_TIMEOUT TimeoutKey.connect,
          CONNECT_WS ''ws://localhost:1234'' Actions.OPEN Actions.CLOSE Actions.HEARTBEAT]
   \<and> last (snd (update Actions.CONNECT (wsState (wsMachine testConfig 0.5 wsSchemes))))
       = CONNECT_WS ''ws://localhost:1234'' Actions.OPEN Actions.CLOSE Actions.HEARTBEAT
   \<and> length (filter isConnectWs (snd (update Actions.CONNECT (wsState (wsMachine testConfig 0.5 wsSchemes)))))
       = 1
   \<and> tag (fst (update Actions.CONNECT (wsState (wsMachine testConfig 0.5 wsSchemes)))) = States.CONNECTING"
proof -
  let ?s = "wsState (wsMachine testConfig 0.5 wsSchemes)"
  have h: "\<exists>e \<in> set (snd (update Actions.CONNECT ?s)). isConnectWs e"
    and t: "tag ?s = States.INITIAL"
    by (simp_all add: update_defs wsMachine_def)
  have u: "snd (update Actions.CONNECT ?s)
       = [CLEAR_TIMEOUT TimeoutKey.connect,
          CONNECT_WS ''ws://localhost:1234'' Actions.OPEN Actions.CLOSE Actions.HEARTBEAT]"
    by (simp add: update_defs wsMachine_def testConfig_def)
  from connect_ws_only_on_connect [of Actions.CONNECT ?s] h
  have "tag (fst (update Actions.CONNECT ?s)) = States.CONNECTING"
    and "length (filter isConnectWs (snd (update Actions.CONNECT ?s))) = 1"
    and "last (snd (update Actions.CONNECT ?s))
       = CONNECT_WS (url ?s) Actions.OPEN Actions.CLOSE Actions.HEARTBEAT"
    by blast+
  with h t u show ?thesis by (simp add: wsMachine_def testConfig_def)
qed

section \<open>One live timer for each key\<close>

lemma timerTransition_ok:
  assumes "timerOk t"
    and "a = Actions.PING_TIMEOUT \<longrightarrow> tmLive t \<noteq> [(TimeoutKey.pong, Actions.PONG_TIMEOUT)]"
  shows "timerOk (timerTransition a t)"
  using assms
  by (cases "tag (tmState t)"; cases a)
     (auto simp: timerTransition.simps update_defs timerOk_def)

lemma timerStep_ok:
  assumes ok: "timerOk t" and ev: "ev \<noteq> Arrives Actions.PING_TIMEOUT"
  shows "timerOk (timerStep ev t)"
proof (cases ev)
  case (Arrives a)
  with assms show ?thesis by (simp add: timerStep_def timerTransition_ok)
next
  case (Fires k)
  show ?thesis
  proof (cases "map_of (tmLive t) k")
    case None
    with Fires ok show ?thesis by (simp add: timerStep_def)
  next
    case (Some a)
    then have mem: "(k, a) \<in> set (tmLive t)" by (rule map_of_SomeD)
    let ?t = "t\<lparr>tmLive := remove1 (k, a) (tmLive t)\<rparr>"
    from ok mem have empty: "tmLive ?t = []"
      by (auto simp: timerOk_def split: States.splits)
    with ok have ok': "timerOk ?t"
      by (auto simp: timerOk_def split: States.splits)
    from empty have "a = Actions.PING_TIMEOUT \<longrightarrow>
        tmLive ?t \<noteq> [(TimeoutKey.pong, Actions.PONG_TIMEOUT)]"
      by auto
    with ok' have "timerOk (timerTransition a ?t)" by (rule timerTransition_ok)
    with Fires Some show ?thesis by (simp add: timerStep_def)
  qed
qed

lemma fold_timerStep_ok:
  assumes "timerOk t" "\<forall>ev \<in> set evs. ev \<noteq> Arrives Actions.PING_TIMEOUT"
  shows "timerOk (fold timerStep evs t)"
  using assms by (induction evs arbitrary: t) (simp_all add: timerStep_ok)

text \<open>
  C8. Take the timers as the claim does: SCHEDULE_TIMEOUT adds a timer of its key,
  CLEAR_TIMEOUT removes the timers of its key, a timer that fires is consumed, and nothing
  else touches them. From a state tagged INITIAL, under any sequence of actions that arrive
  and of timers that fire, no SCHEDULE_TIMEOUT in an effect list of \<open>update\<close> finds a live
  timer of its key (\<open>tmOverlap\<close> stays False), and the live timers have pairwise different
  keys. PING_TIMEOUT is the action of the ping timer and comes in by that timer firing, as in
  the source, where the callback of the timer is the only place it comes from; every other
  action may arrive at any time.
\<close>

theorem one_live_timer_per_key:
  assumes "tag state = States.INITIAL"
    and "\<forall>ev \<in> set evs. ev \<noteq> Arrives Actions.PING_TIMEOUT"
  shows "\<not> tmOverlap (timerRun evs state)
       \<and> distinct (map fst (tmLive (timerRun evs state)))"
proof -
  have "timerOk \<lparr>tmState = state, tmLive = [], tmOverlap = False\<rparr>"
    using assms(1) by (simp add: timerOk_def)
  then have "timerOk (timerRun evs state)"
    unfolding timerRun_def using assms(2) by (rule fold_timerStep_ok)
  then show ?thesis
    by (auto simp: timerOk_def split: States.splits)
qed

lemmas timer_defs = timerRun_def timerStep_def timerTransition.simps update_defs

theorem one_live_timer_per_key_witness:
  "tag (wsState (wsMachine testConfig 0.5 wsSchemes)) = States.INITIAL
   \<and> Arrives Actions.PING_TIMEOUT
        \<notin> set [Arrives Actions.CONNECT, Arrives Actions.OPEN, Arrives Actions.CLOSE,
                 Arrives Actions.RECONNECT, Fires TimeoutKey.connect, Arrives Actions.OPEN,
                 Arrives Actions.HEARTBEAT]
   \<and> tmLive (timerRun
        [Arrives Actions.CONNECT, Arrives Actions.OPEN, Arrives Actions.CLOSE,
         Arrives Actions.RECONNECT, Fires TimeoutKey.connect, Arrives Actions.OPEN,
         Arrives Actions.HEARTBEAT]
        (wsState (wsMachine testConfig 0.5 wsSchemes)))
       = [(TimeoutKey.ping, Actions.PING_TIMEOUT)]
   \<and> \<not> tmOverlap (timerRun
        [Arrives Actions.CONNECT, Arrives Actions.OPEN, Arrives Actions.CLOSE,
         Arrives Actions.RECONNECT, Fires TimeoutKey.connect, Arrives Actions.OPEN,
         Arrives Actions.HEARTBEAT]
        (wsState (wsMachine testConfig 0.5 wsSchemes)))"
proof -
  let ?evs = "[Arrives Actions.CONNECT, Arrives Actions.OPEN, Arrives Actions.CLOSE,
         Arrives Actions.RECONNECT, Fires TimeoutKey.connect, Arrives Actions.OPEN,
         Arrives Actions.HEARTBEAT]"
  let ?s = "wsState (wsMachine testConfig 0.5 wsSchemes)"
  have h1: "tag ?s = States.INITIAL" by (simp add: wsMachine_def)
  have h2: "\<forall>ev \<in> set ?evs. ev \<noteq> Arrives Actions.PING_TIMEOUT" by simp
  have l: "tmLive (timerRun ?evs ?s) = [(TimeoutKey.ping, Actions.PING_TIMEOUT)]"
    by (simp add: timer_defs wsMachine_def)
  from one_live_timer_per_key [OF h1 h2] h1 l show ?thesis by simp
qed

text \<open>
  The condition on PING_TIMEOUT is needed. OPEN with PING_TIMEOUT starts the pong timer and
  clears the ping timer only, which is enough when the ping timer has just fired; a
  PING_TIMEOUT that no timer brought, arriving while the pong timer is live, would start a
  second pong timer.
\<close>

lemma ping_timeout_needs_its_timer:
  "tmOverlap (timerRun
     [Arrives Actions.CONNECT, Arrives Actions.OPEN, Fires TimeoutKey.ping,
      Arrives Actions.PING_TIMEOUT]
     (wsState (wsMachine testConfig 0.5 wsSchemes)))"
  by (simp add: timer_defs wsMachine_def)

section \<open>The running machine\<close>

subsection \<open>How the primitive operations act on the timers\<close>

lemma nukeTimeout_fields [simp]:
  "wsState (nukeTimeout k m) = wsState m" "ws (nukeTimeout k m) = ws m"
  "sockets (nukeTimeout k m) = sockets m"
  by (simp_all add: nukeTimeout_def clearTimeout_def split: option.splits)

lemma nukeTimeout_pending:
  assumes "timersOk m"
  shows "pending (nukeTimeout k m) = filter (\<lambda>p. fst (snd p) \<noteq> k) (pending m)"
proof (cases "timeouts m k")
  case None
  with assms have "\<forall>p \<in> set (pending m). fst (snd p) \<noteq> k"
    by (auto simp: timersOk_def)
  with None show ?thesis by (simp add: nukeTimeout_def)
next
  case (Some h)
  with assms have "\<forall>p \<in> set (pending m). (fst p \<noteq> h) = (fst (snd p) \<noteq> k)"
    unfolding timersOk_def by (metis option.inject)
  then have "filter (\<lambda>p. fst p \<noteq> h) (pending m) = filter (\<lambda>p. fst (snd p) \<noteq> k) (pending m)"
    by (intro filter_cong) auto
  with Some show ?thesis by (simp add: nukeTimeout_def clearTimeout_def)
qed

lemma nukeTimeout_live [simp]:
  assumes "timersOk m"
  shows "live (nukeTimeout k m) = removeAll k (live m)"
proof -
  have "map (fst \<circ> snd) (filter (\<lambda>p. fst (snd p) \<noteq> k) ps) = removeAll k (map (fst \<circ> snd) ps)"
    for ps :: "(nat \<times> Timeout) list"
    by (induction ps) auto
  with assms show ?thesis by (simp add: live_def nukeTimeout_pending)
qed

lemma timersOk_filter:
  "timersOk m \<Longrightarrow> timersOk (m\<lparr>pending := filter P (pending m)\<rparr>)"
  by (auto simp: timersOk_def live_def distinct_map_filter)

lemma nukeTimeout_ok [simp]:
  assumes "timersOk m"
  shows "timersOk (nukeTimeout k m)"
proof -
  have "nukeTimeout k m = m\<lparr>pending := filter (\<lambda>p. fst (snd p) \<noteq> k) (pending m)\<rparr>"
    using nukeTimeout_pending [OF assms, of k]
    by (simp add: nukeTimeout_def clearTimeout_def split: option.splits)
  with assms show ?thesis by (simp add: timersOk_filter)
qed

lemma swap_fields [simp]:
  "wsState (swap f m) = f (wsState m)" "ws (swap f m) = ws m" "live (swap f m) = live m"
  "sockets (swap f m) = sockets m" "timersOk (swap f m) = timersOk m"
  by (simp_all add: swap_def Let_def live_def timersOk_def)

lemma scheduleTimeout_fields [simp]:
  "wsState (scheduleTimeout k ms a m) = wsState m" "ws (scheduleTimeout k ms a m) = ws m"
  "sockets (scheduleTimeout k ms a m) = sockets m"
  "live (scheduleTimeout k ms a m) = live m @ [k]"
  by (simp_all add: scheduleTimeout_def live_def)

lemma scheduleTimeout_ok [simp]:
  "timersOk m \<Longrightarrow> k \<notin> set (live m) \<Longrightarrow> a = timeoutAction k
   \<Longrightarrow> timersOk (scheduleTimeout k ms a m)"
  unfolding timersOk_def scheduleTimeout_def live_def
  by (auto simp: less_Suc_eq split: if_splits)

lemma sendPing_fields [simp]:
  "wsState (sendPing c m) = wsState m" "ws (sendPing c m) = ws m"
  "live (sendPing c m) = live m" "timersOk (sendPing c m) = timersOk m"
  by (auto simp add: sendPing_def live_def timersOk_def split: option.splits)

lemma clearTimeouts_fields [simp]:
  "wsState (clearTimeouts m) = wsState m" "ws (clearTimeouts m) = ws m"
  "timersOk m \<Longrightarrow> timersOk (clearTimeouts m)"
  "timersOk m \<Longrightarrow> live (clearTimeouts m) = []"
proof -
  show "wsState (clearTimeouts m) = wsState m" "ws (clearTimeouts m) = ws m"
    "timersOk m \<Longrightarrow> timersOk (clearTimeouts m)"
    by (simp_all add: clearTimeouts_def)
  assume "timersOk m"
  then have "live (clearTimeouts m)
      = removeAll TimeoutKey.pong
          (removeAll TimeoutKey.ping (removeAll TimeoutKey.connect (live m)))"
    by (simp add: clearTimeouts_def)
  then have "set (live (clearTimeouts m)) = {}"
    using TimeoutKey.exhaust by auto
  then show "live (clearTimeouts m) = []" by simp
qed

lemma removeEventListeners_fields [simp]:
  "wsState (removeEventListeners w m) = wsState m" "ws (removeEventListeners w m) = ws m"
  "live (removeEventListeners w m) = live m"
  "timersOk m \<Longrightarrow> timersOk (removeEventListeners w m)"
  by (force simp add: removeEventListeners_def live_def timersOk_def)+

lemma closeSocket_fields [simp]:
  "wsState (closeSocket w m) = wsState m" "ws (closeSocket w m) = ws m"
  "live (closeSocket w m) = live m"
  "timersOk (closeSocket w m) = timersOk m"
  by (auto simp add: closeSocket_def live_def timersOk_def)

lemma addEventListener_fields [simp]:
  "wsState (addEventListener w l m) = wsState m" "ws (addEventListener w l m) = ws m"
  "live (addEventListener w l m) = live m"
  "timersOk m \<Longrightarrow> handlerOk (snd l) \<Longrightarrow> timersOk (addEventListener w l m)"
  by (auto simp add: addEventListener_def live_def timersOk_def)

lemma connectWs_fields [simp]:
  "wsState (after (connectWs u a b c m)) = wsState m"
  "ws (after (connectWs u a b c m)) = None \<longleftrightarrow> ws m = None \<and> \<not> accepts m u"
  "ws m = None \<Longrightarrow> \<not> accepts m u \<Longrightarrow> connectWs u a b c m = Threw SyntaxError m"
  "timersOk m \<Longrightarrow> live (after (connectWs u a b c m)) = (if ws m = None then live m else [])"
  "timersOk m
   \<Longrightarrow> timersOk (after (connectWs u Actions.OPEN Actions.CLOSE Actions.HEARTBEAT m))"
proof -
  have acc: "accepts (closeSocket w (clearTimeouts (removeEventListeners w m))) = accepts m"
    for w
    by (simp add: closeSocket_def clearTimeouts_def nukeTimeout_def clearTimeout_def
        removeEventListeners_def split: option.splits)
  show "wsState (after (connectWs u a b c m)) = wsState m"
    "ws (after (connectWs u a b c m)) = None \<longleftrightarrow> ws m = None \<and> \<not> accepts m u"
    "ws m = None \<Longrightarrow> \<not> accepts m u \<Longrightarrow> connectWs u a b c m = Threw SyntaxError m"
    by (simp_all add: connectWs_def Let_def acc split: option.splits)
  have fresh: "timersOk m' \<Longrightarrow> timersOk (m'\<lparr>sockets := (sockets m')
                      (n := \<lparr>socketUrl = u, listeners = [], closeCalled = False, sent = []\<rparr>),
                  socketCount := Suc n, ws := Some n\<rparr>)" for m' n
    by (auto simp: timersOk_def live_def)
  have same: "live (m'\<lparr>sockets := x, socketCount := y, ws := z\<rparr>) = live m'" for m' x y z
    by (simp add: live_def)
  assume ok: "timersOk m"
  then show "live (after (connectWs u a b c m)) = (if ws m = None then live m else [])"
    by (simp add: connectWs_def Let_def same split: option.splits)
  from ok show "timersOk (after (connectWs u Actions.OPEN Actions.CLOSE Actions.HEARTBEAT m))"
    by (simp add: connectWs_def Let_def fresh split: option.splits)
qed

lemma log_fields [simp]:
  "live (m\<lparr>messages := x\<rparr>) = live m" "timersOk (m\<lparr>messages := x\<rparr>) = timersOk m"
  "live (m\<lparr>changeHandler := y\<rparr>) = live m" "timersOk (m\<lparr>changeHandler := y\<rparr>) = timersOk m"
  by (simp_all add: live_def timersOk_def)

lemma accepts_fields [simp]:
  "accepts (nukeTimeout k m) = accepts m"
  "accepts (swap f m) = accepts m"
  "accepts (scheduleTimeout k ms a m) = accepts m"
  "accepts (sendPing config m) = accepts m"
  "accepts (clearTimeouts m) = accepts m"
  "accepts (removeEventListeners w m) = accepts m"
  "accepts (closeSocket w m) = accepts m"
  "accepts (addEventListener w l m) = accepts m"
  "accepts (after (connectWs u a b c m)) = accepts m"
  by (simp_all add: nukeTimeout_def clearTimeout_def swap_def scheduleTimeout_def sendPing_def
      clearTimeouts_def removeEventListeners_def closeSocket_def addEventListener_def
      connectWs_def Let_def split: option.splits)

lemma outcome_case_same [simp]:
  "(case x of Returned m' \<Rightarrow> Returned m' | Threw err m' \<Rightarrow> Threw err m') = x"
  by (cases x) simp_all

subsection \<open>A transition keeps the invariants\<close>

lemma transition_inv:
  assumes "timersOk m" "tagOk m"
    and "a = Actions.PING_TIMEOUT \<longrightarrow> live m \<noteq> [TimeoutKey.pong]"
    and "ws m = None \<longrightarrow> a = Actions.CONNECT"
  shows "timersOk (after (transition config a m)) \<and> tagOk (after (transition config a m))"
  using assms
  by (cases "tag (wsState m)"; cases a)
     (auto simp: transition.simps callUpdate_def update_defs tagOk_def cong: outcome.case_cong)


lemma after_bind [simp]:
  "after (case x of Returned m' \<Rightarrow> f m' | Threw err m' \<Rightarrow> Threw err m')
     = (case x of Returned m' \<Rightarrow> after (f m') | Threw err m' \<Rightarrow> m')"
  by (cases x) simp_all

lemma interpreter_ws:
  "ws m \<noteq> None \<Longrightarrow> ws (after (transition config a m)) \<noteq> None"
  "ws m \<noteq> None \<Longrightarrow> ws (after (handleEffect config e m)) \<noteq> None"
  "ws m \<noteq> None \<Longrightarrow> ws (after (handleEffects config es m)) \<noteq> None"
proof (induction config a m and config e m and config es m
    rule: transition_handleEffect_handleEffects.induct)
  case (1 config a m)
  show ?case
  proof (cases "callUpdate config a (wsState m)")
    case (Inl err)
    with "1.prems" show ?thesis by (simp add: transition.simps)
  next
    case (Inr r)
    obtain newState effects where r: "r = (newState, effects)" by (cases r)
    from "1.IH" [OF Inr r [symmetric]] "1.prems" Inr r show ?thesis
      by (simp add: transition.simps)
  qed
next
  case (8 config e es m)
  then show ?case by (cases "handleEffect config e m") simp_all
qed simp_all

subsection \<open>The delay of the connect timer\<close>

lemma pending_fields [simp]:
  "pending (swap f m) = pending m"
  "pending (scheduleTimeout k ms a m) = pending m @ [(timeoutCount m, k, ms, a)]"
  "pending (sendPing c m) = pending m"
  "pending (m\<lparr>messages := x\<rparr>) = pending m"
  by (simp_all add: swap_def Let_def scheduleTimeout_def sendPing_def split: option.splits)

lemma live_Nil [simp]: "live m = [] \<longleftrightarrow> pending m = []"
  by (simp add: live_def)

lemma pending_connectWs:
  assumes "timersOk m"
  shows "pending (after (connectWs u a b c m)) = (if ws m = None then pending m else [])"
proof -
  have "live (after (connectWs u a b c m)) = (if ws m = None then live m else [])"
    using assms by simp
  moreover have "ws m = None \<Longrightarrow> pending (after (connectWs u a b c m)) = pending m"
    by (simp add: connectWs_def Let_def addEventListener_def)
  ultimately show ?thesis by (simp split: if_splits)
qed

lemma delayOk_nukeTimeout [simp]:
  assumes "timersOk m" "delayOk m"
  shows "delayOk (nukeTimeout k m)"
  using assms by (simp add: delayOk_def nukeTimeout_pending)

lemma transition_delay:
  assumes "timersOk m" "tagOk m" "delayOk m"
  shows "delayOk (after (transition config a m))"
  using assms
  by (cases "tag (wsState m)"; cases a)
     (auto simp: transition.simps callUpdate_def update_defs tagOk_def delayOk_def
        nukeTimeout_pending pending_connectWs cong: outcome.case_cong)


subsection \<open>Every event keeps the invariants\<close>

lemma transition_ok:
  assumes "machineOk m"
    and "a = Actions.PING_TIMEOUT \<longrightarrow> live m \<noteq> [TimeoutKey.pong]"
    and "ws m = None \<longrightarrow> a = Actions.CONNECT"
  shows "machineOk (after (transition config a m))"
  using assms transition_inv [of m a config] transition_delay [of m config a]
  by (simp add: machineOk_def)

lemma fireTimeout_ok:
  assumes ok: "machineOk m"
  shows "machineOk (fireTimeout config t m)"
proof (cases "map_of (pending m) t")
  case None
  with assms show ?thesis by (simp add: fireTimeout_def)
next
  case (Some p)
  obtain k ms a where p: "p = (k, ms, a)" by (cases p)
  from ok have tm: "timersOk m" and tg: "tagOk m" and dl: "delayOk m"
    by (simp_all add: machineOk_def)
  from Some p have mem: "(t, k, ms, a) \<in> set (pending m)" by (simp add: map_of_SomeD)
  with tm have a: "a = timeoutAction k" and tk: "timeouts m k = Some t"
    by (auto simp: timersOk_def)
  from tk have eq: "clearTimeout t m = nukeTimeout k m" by (simp add: nukeTimeout_def)
  from mem have kl: "k \<in> set (live m)" by (force simp: live_def)
  with tg have sock: "ws m \<noteq> None" by (auto simp: tagOk_def simp del: live_Nil)
  let ?m = "nukeTimeout k m"
  have lv: "live ?m = removeAll k (live m)" using tm by simp
  have "tagOk ?m" using tg kl lv sock
    by (auto simp: tagOk_def simp del: live_Nil split: States.splits)
  with tm dl have ok': "machineOk ?m" by (simp add: machineOk_def)
  have "a = Actions.PING_TIMEOUT \<longrightarrow> live ?m \<noteq> [TimeoutKey.pong]"
    using a kl tg lv by (cases k; auto simp: tagOk_def simp del: live_Nil split: States.splits)
  moreover have "ws ?m = None \<longrightarrow> a = Actions.CONNECT" using sock by auto
  ultimately have "machineOk (after (transition config a ?m))"
    using ok' by (intro transition_ok)
  with Some p eq show ?thesis by (simp add: fireTimeout_def)
qed

lemma machineOk_messages [simp]: "machineOk (m\<lparr>messages := x\<rparr>) = machineOk m"
  by (simp add: machineOk_def tagOk_def delayOk_def cong: States.case_cong)

lemma runHandler_ok:
  assumes "machineOk m" "handlerOk h" "ws m \<noteq> None"
  shows "machineOk (after (runHandler config h d m))
       \<and> ws (after (runHandler config h d m)) \<noteq> None"
proof (cases h)
  case (onOpen n a)
  with assms show ?thesis by (simp add: runHandler_def transition_ok interpreter_ws)
next
  case (onClose n a)
  with assms have a: "a = Actions.CLOSE" by simp
  let ?m = "after (transition config Actions.CLOSE m)"
  from assms have 1: "machineOk ?m" and 2: "ws ?m \<noteq> None"
    by (simp_all add: transition_ok interpreter_ws)
  show ?thesis
  proof (cases "transition config Actions.CLOSE m")
    case (Returned m')
    with 1 2 have "machineOk m'" "ws m' \<noteq> None" by simp_all
    then have "machineOk (after (transition config Actions.RECONNECT m'))
        \<and> ws (after (transition config Actions.RECONNECT m')) \<noteq> None"
      by (simp add: transition_ok interpreter_ws)
    with onClose a Returned show ?thesis by (simp add: runHandler_def)
  next
    case (Threw err m')
    with 1 2 onClose a show ?thesis by (simp add: runHandler_def)
  qed
next
  case (onMessage n a)
  with assms show ?thesis
    by (simp add: runHandler_def transition_ok interpreter_ws)
qed

lemma fold_runHandler_ok:
  assumes "\<forall>l \<in> set ls. handlerOk (snd l)" "machineOk m" "ws m \<noteq> None"
  shows "machineOk (fold (\<lambda>l m'. after (runHandler config (snd l) d m')) ls m)"
  using assms
proof (induction ls arbitrary: m)
  case Nil
  then show ?case by simp
next
  case (Cons l ls)
  then have "machineOk (after (runHandler config (snd l) d m))
      \<and> ws (after (runHandler config (snd l) d m)) \<noteq> None"
    by (simp add: runHandler_ok)
  with Cons show ?case by simp
qed

lemma dispatchEvent_ok:
  assumes "machineOk m"
  shows "machineOk (dispatchEvent config w k d m)"
proof (cases "ws m")
  case None
  with assms have "listeners (sockets m w) = []" by (simp add: machineOk_def tagOk_def)
  with assms show ?thesis by (simp add: dispatchEvent_def)
next
  case (Some s)
  from assms have "\<forall>l \<in> set (listeners (sockets m w)). handlerOk (snd l)"
    unfolding machineOk_def timersOk_def by blast
  then have "\<forall>l \<in> set (filter (\<lambda>l. fst l = k) (listeners (sockets m w))). handlerOk (snd l)"
    by simp
  from fold_runHandler_ok [OF this assms] Some show ?thesis
    by (simp add: dispatchEvent_def)
qed

lemma disconnect_ok:
  assumes "machineOk m"
  shows "machineOk (disconnect m)"
proof (cases "ws m")
  case None
  have "sockets (m\<lparr>changeHandler := False\<rparr>) = sockets m"
    "pending (m\<lparr>changeHandler := False\<rparr>) = pending m" by simp_all
  with None assms show ?thesis
    by (simp add: disconnect_def Let_def machineOk_def tagOk_def delayOk_def
        cong: States.case_cong)
next
  case (Some w)
  let ?c = "clearTimeouts (removeEventListeners w (m\<lparr>changeHandler := False\<rparr>))"
  from assms have "timersOk ?c" "live ?c = []" by (simp_all add: machineOk_def)
  then have "timersOk (disconnect m)" "pending (disconnect m) = []"
    "ws (disconnect m) \<noteq> None" "tag (wsState (disconnect m)) = States.INITIAL"
    using Some
    by (simp_all add: disconnect_def Let_def closeSocket_def swap_def timersOk_def live_def)
  then show ?thesis
    by (auto simp: machineOk_def tagOk_def delayOk_def)
qed

lemma step_ok: "machineOk m \<Longrightarrow> machineOk (step config ev m)"
  by (cases ev)
     (simp_all add: step_def wsMachine_connect_def transition_ok fireTimeout_ok
        dispatchEvent_ok disconnect_ok)

lemma wsMachine_ok: "machineOk (wsMachine config r acc)"
  by (simp add: wsMachine_def machineOk_def timersOk_def tagOk_def delayOk_def live_def)

lemma run_ok_from: "machineOk m \<Longrightarrow> machineOk (run config evs m)"
  unfolding run_def by (induction evs arbitrary: m) (simp_all add: step_ok)

lemma run_ok: "machineOk (run config evs (wsMachine config r acc))"
  by (simp add: run_ok_from wsMachine_ok)

text \<open>In the interpreter too, the pending timers of a run have pairwise different keys.\<close>

lemma run_timers_distinct: "distinct (live (run config evs (wsMachine config r acc)))"
  using run_ok [of config evs r acc] by (simp add: machineOk_def timersOk_def)

subsection \<open>What the interpreter leaves alone\<close>

lemma interpreter_wsState:
  "(\<And>a s s' es. Q s \<Longrightarrow> callUpdate config a s = Inr (s', es) \<Longrightarrow> Q s')
   \<Longrightarrow> Q (wsState m) \<Longrightarrow> Q (wsState (after (transition config a m)))"
  "(\<And>a s s' es. Q s \<Longrightarrow> callUpdate config a s = Inr (s', es) \<Longrightarrow> Q s')
   \<Longrightarrow> Q (wsState m) \<Longrightarrow> Q (wsState (after (handleEffect config e m)))"
  "(\<And>a s s' es. Q s \<Longrightarrow> callUpdate config a s = Inr (s', es) \<Longrightarrow> Q s')
   \<Longrightarrow> Q (wsState m) \<Longrightarrow> Q (wsState (after (handleEffects config es m)))"
proof (induction config a m and config e m and config es m
    rule: transition_handleEffect_handleEffects.induct)
  case (1 config a m)
  show ?case
  proof (cases "callUpdate config a (wsState m)")
    case (Inl err)
    with "1.prems"(2) show ?thesis by (simp add: transition.simps)
  next
    case (Inr r)
    obtain newState effects where r: "r = (newState, effects)" by (cases r)
    from "1.prems"(1) [OF "1.prems"(2)] Inr r
    have "Q (wsState (swap (\<lambda>_. newState) m))" by simp
    with "1.IH" [OF Inr r [symmetric] "1.prems"(1)] Inr r show ?thesis
      by (simp add: transition.simps)
  qed
next
  case (8 config e es m)
  from "8.prems" have "Q (wsState (after (handleEffect config e m)))"
    by (intro "8.IH"(1))
  with "8.IH"(2) "8.prems"(1) show ?case
    by (cases "handleEffect config e m") simp_all
qed simp_all

lemma run_wsState:
  assumes upd: "\<And>a s s' es. Q s \<Longrightarrow> callUpdate config a s = Inr (s', es) \<Longrightarrow> Q s'"
    and reset: "\<And>s. Q s \<Longrightarrow> Q (s\<lparr>reconnectAttempt := 0, tag := States.INITIAL\<rparr>)"
  shows "Q (wsState m) \<Longrightarrow> Q (wsState (run config evs m))"
  unfolding run_def
proof (induction evs arbitrary: m)
  case Nil
  then show ?case by simp
next
  case (Cons ev evs)
  have tr: "Q (wsState (after (transition config a m')))" if "Q (wsState m')" for a m'
  proof (rule interpreter_wsState(1))
    show "Q s'" if "Q s" "callUpdate config b s = Inr (s', es)" for b s s' es
      using that by (rule upd)
    show "Q (wsState m')" by fact
  qed
  have handler: "Q (wsState (after (runHandler config h d m')))" if "Q (wsState m')" for h d m'
  proof (cases h)
    case (onClose n a)
    from that have "Q (wsState (after (transition config a m')))" by (rule tr)
    then show ?thesis
      using onClose by (cases "transition config a m'") (simp_all add: runHandler_def tr)
  qed (use that in \<open>simp_all add: runHandler_def tr\<close>)
  have handlers: "Q (wsState (fold (\<lambda>l m'. after (runHandler config (snd l) d m')) ls m'))"
    if "Q (wsState m')" for ls :: "(WsMessageKeys \<times> Handler) list" and d m'
    using that by (induction ls arbitrary: m') (simp_all add: handler)
  have "Q (wsState (step config ev m))"
  proof (cases ev)
    case CallConnect
    with Cons.prems show ?thesis by (simp add: step_def wsMachine_connect_def tr)
  next
    case CallDisconnect
    with Cons.prems show ?thesis
      by (simp add: step_def disconnect_def Let_def reset split: option.splits)
  next
    case (TimeoutFires t)
    have "wsState (clearTimeout t m) = wsState m" by (simp add: clearTimeout_def)
    with TimeoutFires Cons.prems show ?thesis
      by (simp add: step_def fireTimeout_def tr split: option.splits)
  qed (use Cons.prems in \<open>simp_all add: step_def dispatchEvent_def handlers\<close>)
  then show ?case using Cons.IH by simp
qed

lemma callUpdate_Inr:
  "callUpdate config a s = Inr (s', es) \<Longrightarrow> s' = fst (update a s) \<and> es = snd (update a s)"
  by (auto simp: callUpdate_def split: if_splits)

lemma interpreter_messages:
  "messages (after (transition config a m)) = messages m"
  "messages (after (handleEffect config e m)) = messages m"
  "messages (after (handleEffects config es m)) = messages m"
proof (induction config a m and config e m and config es m
    rule: transition_handleEffect_handleEffects.induct)
  case (1 config a m)
  show ?case
  proof (cases "callUpdate config a (wsState m)")
    case (Inl err)
    then show ?thesis by (simp add: transition.simps)
  next
    case (Inr r)
    obtain newState effects where r: "r = (newState, effects)" by (cases r)
    from "1.IH" [OF Inr r [symmetric]] Inr r show ?thesis
      by (simp add: transition.simps swap_def Let_def)
  qed
next
  case (8 config e es m)
  then show ?case by (cases "handleEffect config e m") simp_all
qed (simp_all add: connectWs_def Let_def scheduleTimeout_def sendPing_def nukeTimeout_def
      clearTimeout_def clearTimeouts_def closeSocket_def removeEventListeners_def
      addEventListener_def split: option.splits)

subsection \<open>Concrete runs\<close>

lemmas machine_defs = run_def step_def wsMachine_connect_def disconnect_def wsMachine_def
  fireTimeout_def dispatchEvent_def runHandler_def transition.simps callUpdate_def update_defs
  sendPing_def scheduleTimeout_def connectWs_def closeSocket_def clearTimeouts_def
  nukeTimeout_def clearTimeout_def removeEventListeners_def addEventListener_def swap_def
  testConfig_def wsSchemes_def Let_def

text \<open>The machine of the test file once its socket has opened, used as a concrete input.\<close>

lemma opened_machine:
  "tag (wsState (run testConfig [CallConnect, SocketOpen 0] (wsMachine testConfig 0.5 wsSchemes)))
     = States.OPEN"
  "changeHandler (run testConfig [CallConnect, SocketOpen 0] (wsMachine testConfig 0.5 wsSchemes))"
  "ws (run testConfig [CallConnect, SocketOpen 0] (wsMachine testConfig 0.5 wsSchemes)) = Some 0"
  "map fst (pending (run testConfig [CallConnect, SocketOpen 0]
     (wsMachine testConfig 0.5 wsSchemes))) = [0]"
  by (simp_all add: machine_defs)

lemma update_keeps:
  "backoffFn (fst (update a s)) = backoffFn s"
  "randSeed (fst (update a s)) = randSeed s"
  "url (fst (update a s)) = url s"
  by (cases "tag s"; cases a; simp add: update_defs)+

lemma run_context:
  "url (wsState (run config evs (wsMachine config r acc))) = url config"
  "randSeed (wsState (run config evs (wsMachine config r acc))) = r"
  "backoffFn config = Some f
   \<Longrightarrow> backoffFn (wsState (run config evs (wsMachine config r acc))) = f"
proof -
  show "url (wsState (run config evs (wsMachine config r acc))) = url config"
    by (rule run_wsState [where Q = "\<lambda>s. url s = url config"])
       (auto simp: update_keeps wsMachine_def dest!: callUpdate_Inr)
  show "randSeed (wsState (run config evs (wsMachine config r acc))) = r"
    by (rule run_wsState [where Q = "\<lambda>s. randSeed s = r"])
       (auto simp: update_keeps wsMachine_def dest!: callUpdate_Inr)
  assume "backoffFn config = Some f"
  then have "backoffFn (wsState (wsMachine config r acc)) = f" by (simp add: wsMachine_def)
  then show "backoffFn (wsState (run config evs (wsMachine config r acc))) = f"
    by (rule run_wsState [where Q = "\<lambda>s. backoffFn s = f", rotated 2])
       (auto simp: update_keeps dest!: callUpdate_Inr)
qed




section \<open>The reconnect counter\<close>

lemma update_reconnectAttempt_nat:
  "reconnectAttempt s \<in> \<nat> \<Longrightarrow> reconnectAttempt (fst (update a s)) \<in> \<nat>"
  by (cases "tag s"; cases a) (simp_all add: update_defs)

lemma fold_update_nat:
  "reconnectAttempt s \<in> \<nat>
   \<Longrightarrow> reconnectAttempt (fold (\<lambda>a s. fst (update a s)) as s) \<in> \<nat>"
  by (induction as arbitrary: s) (simp_all add: update_reconnectAttempt_nat)

text \<open>
  C7. \<open>update\<close> changes \<open>reconnectAttempt\<close> in two transitions only: CONNECTING with OPEN sets
  it to 0 whatever it was, and CLOSED with RECONNECT adds 1 to it. A state tagged RECONNECTING
  comes out of a state with another tag only in the transition of CLOSED with RECONNECT.
  Hence the counter is a natural number in every state reached from the initial state of
  \<open>wsMachine\<close>, by any list of actions given to \<open>update\<close> and by any run of the machine.
\<close>

theorem reconnectAttempt_changes:
  "(reconnectAttempt (fst (update action state)) \<noteq> reconnectAttempt state \<longrightarrow>
      tag state = States.CONNECTING \<and> action = Actions.OPEN
      \<or> tag state = States.CLOSED \<and> action = Actions.RECONNECT)
   \<and> (tag state = States.CONNECTING \<longrightarrow>
        reconnectAttempt (fst (update Actions.OPEN state)) = 0)
   \<and> (tag state = States.CLOSED \<longrightarrow>
        reconnectAttempt (fst (update Actions.RECONNECT state)) = reconnectAttempt state + 1)
   \<and> (tag (fst (update action state)) = States.RECONNECTING \<and> tag state \<noteq> States.RECONNECTING
        \<longrightarrow> tag state = States.CLOSED \<and> action = Actions.RECONNECT)
   \<and> reconnectAttempt (fold (\<lambda>a s. fst (update a s)) actions (wsState (wsMachine config r acc)))
        \<in> \<nat>
   \<and> reconnectAttempt (wsState (run config evs (wsMachine config r acc))) \<in> \<nat>"
proof -
  have init: "reconnectAttempt (wsState (wsMachine config r acc)) \<in> \<nat>"
    by (simp add: wsMachine_def)
  then have pure:
    "reconnectAttempt (fold (\<lambda>a s. fst (update a s)) actions (wsState (wsMachine config r acc)))
       \<in> \<nat>"
    by (rule fold_update_nat)
  have machine: "reconnectAttempt (wsState (run config evs (wsMachine config r acc))) \<in> \<nat>"
    by (rule run_wsState [where Q = "\<lambda>s. reconnectAttempt s \<in> \<nat>"])
       (auto simp: update_reconnectAttempt_nat init dest!: callUpdate_Inr)
  have "(reconnectAttempt (fst (update action state)) \<noteq> reconnectAttempt state \<longrightarrow>
      tag state = States.CONNECTING \<and> action = Actions.OPEN
      \<or> tag state = States.CLOSED \<and> action = Actions.RECONNECT)
   \<and> (tag state = States.CONNECTING \<longrightarrow>
        reconnectAttempt (fst (update Actions.OPEN state)) = 0)
   \<and> (tag state = States.CLOSED \<longrightarrow>
        reconnectAttempt (fst (update Actions.RECONNECT state)) = reconnectAttempt state + 1)
   \<and> (tag (fst (update action state)) = States.RECONNECTING \<and> tag state \<noteq> States.RECONNECTING
        \<longrightarrow> tag state = States.CLOSED \<and> action = Actions.RECONNECT)"
    by (cases "tag state"; cases action) (simp_all add: update_defs)
  with pure machine show ?thesis by simp
qed

theorem reconnectAttempt_changes_witness:
  "tag (wsState (wsMachine testConfig 0.5 wsSchemes)\<lparr>tag := States.CLOSED\<rparr>) = States.CLOSED
   \<and> reconnectAttempt (wsState (wsMachine testConfig 0.5 wsSchemes)\<lparr>tag := States.CLOSED\<rparr>) = 0
   \<and> reconnectAttempt
        (fst (update Actions.RECONNECT
                (wsState (wsMachine testConfig 0.5 wsSchemes)\<lparr>tag := States.CLOSED\<rparr>)))
       = 1
   \<and> tag (fst (update Actions.RECONNECT
                 (wsState (wsMachine testConfig 0.5 wsSchemes)\<lparr>tag := States.CLOSED\<rparr>)))
       = States.RECONNECTING
   \<and> tag (wsState (wsMachine testConfig 0.5 wsSchemes)
            \<lparr>reconnectAttempt := 3, tag := States.CONNECTING\<rparr>) = States.CONNECTING
   \<and> reconnectAttempt
        (fst (update Actions.OPEN
               (wsState (wsMachine testConfig 0.5 wsSchemes)
                  \<lparr>reconnectAttempt := 3, tag := States.CONNECTING\<rparr>)))
       = 0"
proof -
  let ?closed = "wsState (wsMachine testConfig 0.5 wsSchemes)\<lparr>tag := States.CLOSED\<rparr>"
  let ?connecting = "wsState (wsMachine testConfig 0.5 wsSchemes)
      \<lparr>reconnectAttempt := 3, tag := States.CONNECTING\<rparr>"
  have h1: "tag ?closed = States.CLOSED" and h0: "reconnectAttempt ?closed = 0"
    and h2: "tag ?connecting = States.CONNECTING"
    by (simp_all add: wsMachine_def)
  have h3: "tag (fst (update Actions.RECONNECT ?closed)) = States.RECONNECTING"
    by (simp add: update_defs wsMachine_def)
  from reconnectAttempt_changes
          [where action = Actions.RECONNECT and state = ?closed and actions = "[]"
             and config = testConfig and r = "0.5" and acc = wsSchemes and evs = "[]"] h1 h0
  have a: "reconnectAttempt (fst (update Actions.RECONNECT ?closed)) = 1" by simp
  from reconnectAttempt_changes
          [where action = Actions.OPEN and state = ?connecting and actions = "[]"
             and config = testConfig and r = "0.5" and acc = wsSchemes and evs = "[]"] h2
  have b: "reconnectAttempt (fst (update Actions.OPEN ?connecting)) = 0" by simp
  from h0 h1 h2 h3 a b show ?thesis by simp
qed

section \<open>Disconnecting\<close>




section \<open>The pong timeout\<close>

text \<open>
  C9. In a state tagged OPEN, \<open>update\<close> answers PONG_TIMEOUT with the same state and the two
  effects TRIGGER_ACTION CLOSE and TRIGGER_ACTION RECONNECT. Handling the two in order takes
  the machine from OPEN to CLOSED and from CLOSED to RECONNECTING, with one call of the
  observer for each (after the one for the PONG_TIMEOUT transition itself, from OPEN to
  OPEN), and nothing is thrown. This is the machine of a configuration with its \<^verbatim>\<open>backoffFn\<close>;
  without the property the second step raises the TypeError and only the first change is
  seen. Neither CLOSE nor RECONNECT makes \<open>update\<close> emit a TRIGGER_ACTION in any state, and
  PONG_TIMEOUT in OPEN is the only transition that emits one: a chain of triggered actions
  has at most two actions.
\<close>

theorem pong_timeout_chain:
  "(tag state = States.OPEN \<longrightarrow>
      update Actions.PONG_TIMEOUT state
        = (state, [TRIGGER_ACTION Actions.CLOSE, TRIGGER_ACTION Actions.RECONNECT])
      \<and> fst (update Actions.CLOSE state) = state\<lparr>tag := States.CLOSED\<rparr>
      \<and> fst (update Actions.RECONNECT (state\<lparr>tag := States.CLOSED\<rparr>))
          = state\<lparr>reconnectAttempt := reconnectAttempt state + 1, tag := States.RECONNECTING\<rparr>)
   \<and> (tag (wsState m) = States.OPEN \<and> changeHandler m \<longrightarrow>
        stateChanges
            (after (handleEffects config
               [TRIGGER_ACTION Actions.CLOSE, TRIGGER_ACTION Actions.RECONNECT] m))
          = stateChanges m
            @ (wsState m, wsState m\<lparr>tag := States.CLOSED\<rparr>)
            # (if backoffFn config = None then []
               else [(wsState m\<lparr>tag := States.CLOSED\<rparr>,
                      wsState m\<lparr>reconnectAttempt := reconnectAttempt (wsState m) + 1,
                                tag := States.RECONNECTING\<rparr>)])
        \<and> stateChanges (after (transition config Actions.PONG_TIMEOUT m))
          = stateChanges m
            @ (wsState m, wsState m)
            # (wsState m, wsState m\<lparr>tag := States.CLOSED\<rparr>)
            # (if backoffFn config = None then []
               else [(wsState m\<lparr>tag := States.CLOSED\<rparr>,
                      wsState m\<lparr>reconnectAttempt := reconnectAttempt (wsState m) + 1,
                                tag := States.RECONNECTING\<rparr>)])
        \<and> thrown (transition config Actions.PONG_TIMEOUT m)
          = (if backoffFn config = None then Some TypeError else None))
   \<and> \<not> (\<exists>e \<in> set (snd (update Actions.CLOSE s1)). isTrigger e)
   \<and> \<not> (\<exists>e \<in> set (snd (update Actions.RECONNECT s2)). isTrigger e)
   \<and> ((\<exists>e \<in> set (snd (update action s3)). isTrigger e) \<longrightarrow>
        action = Actions.PONG_TIMEOUT \<and> tag s3 = States.OPEN)"
proof -
  have 1: "tag state = States.OPEN \<longrightarrow>
      update Actions.PONG_TIMEOUT state
        = (state, [TRIGGER_ACTION Actions.CLOSE, TRIGGER_ACTION Actions.RECONNECT])
      \<and> fst (update Actions.CLOSE state) = state\<lparr>tag := States.CLOSED\<rparr>
      \<and> fst (update Actions.RECONNECT (state\<lparr>tag := States.CLOSED\<rparr>))
          = state\<lparr>reconnectAttempt := reconnectAttempt state + 1, tag := States.RECONNECTING\<rparr>"
    by (simp add: update_defs)
  have sc: "stateChanges (nukeTimeout k m') = stateChanges m'"
           "changeHandler (nukeTimeout k m') = changeHandler m'" for k m'
    by (simp_all add: nukeTimeout_def clearTimeout_def split: option.splits)
  have sw: "stateChanges (swap f m')
              = (if changeHandler m' then stateChanges m' @ [(wsState m', f (wsState m'))]
                 else stateChanges m')"
           "changeHandler (swap f m') = changeHandler m'" for f m'
    by (simp_all add: swap_def Let_def)
  have 2: "tag (wsState m) = States.OPEN \<and> changeHandler m \<longrightarrow>
        stateChanges
            (after (handleEffects config
               [TRIGGER_ACTION Actions.CLOSE, TRIGGER_ACTION Actions.RECONNECT] m))
          = stateChanges m
            @ (wsState m, wsState m\<lparr>tag := States.CLOSED\<rparr>)
            # (if backoffFn config = None then []
               else [(wsState m\<lparr>tag := States.CLOSED\<rparr>,
                      wsState m\<lparr>reconnectAttempt := reconnectAttempt (wsState m) + 1,
                                tag := States.RECONNECTING\<rparr>)])"
    by (simp add: transition.simps callUpdate_def update_defs sc sw scheduleTimeout_def)
  have 3: "tag (wsState m) = States.OPEN \<and> changeHandler m \<longrightarrow>
        stateChanges (after (transition config Actions.PONG_TIMEOUT m))
          = stateChanges m
            @ (wsState m, wsState m)
            # (wsState m, wsState m\<lparr>tag := States.CLOSED\<rparr>)
            # (if backoffFn config = None then []
               else [(wsState m\<lparr>tag := States.CLOSED\<rparr>,
                      wsState m\<lparr>reconnectAttempt := reconnectAttempt (wsState m) + 1,
                                tag := States.RECONNECTING\<rparr>)])"
    by (simp add: transition.simps callUpdate_def update_defs sc sw scheduleTimeout_def)
  have 4: "tag (wsState m) = States.OPEN \<and> changeHandler m \<longrightarrow>
        thrown (transition config Actions.PONG_TIMEOUT m)
          = (if backoffFn config = None then Some TypeError else None)"
    by (simp add: transition.simps callUpdate_def update_defs)
  have 5: "\<not> (\<exists>e \<in> set (snd (update Actions.CLOSE s1)). isTrigger e)"
    by (cases "tag s1") (simp_all add: update_defs)
  have 6: "\<not> (\<exists>e \<in> set (snd (update Actions.RECONNECT s2)). isTrigger e)"
    by (cases "tag s2") (simp_all add: update_defs)
  have 7: "(\<exists>e \<in> set (snd (update action s3)). isTrigger e) \<longrightarrow>
        action = Actions.PONG_TIMEOUT \<and> tag s3 = States.OPEN"
    by (cases "tag s3"; cases action) (simp_all add: update_defs)
  from 1 2 3 4 5 6 7 show ?thesis by blast
qed

theorem pong_timeout_chain_witness:
  "tag (wsState (run testConfig [CallConnect, SocketOpen 0] (wsMachine testConfig 0.5 wsSchemes)))
     = States.OPEN
   \<and> changeHandler (run testConfig [CallConnect, SocketOpen 0] (wsMachine testConfig 0.5 wsSchemes))
   \<and> backoffFn testConfig \<noteq> None
   \<and> map (\<lambda>c. (tag (fst c), tag (snd c)))
        (stateChanges
           (after (transition testConfig Actions.PONG_TIMEOUT
              (run testConfig [CallConnect, SocketOpen 0] (wsMachine testConfig 0.5 wsSchemes)))))
       = [(States.INITIAL, States.CONNECTING), (States.CONNECTING, States.OPEN),
          (States.OPEN, States.OPEN), (States.OPEN, States.CLOSED),
          (States.CLOSED, States.RECONNECTING)]
   \<and> thrown (transition testConfig Actions.PONG_TIMEOUT
        (run testConfig [CallConnect, SocketOpen 0] (wsMachine testConfig 0.5 wsSchemes))) = None
   \<and> (\<exists>e \<in> set (snd (update Actions.PONG_TIMEOUT
                    (wsState (run testConfig [CallConnect, SocketOpen 0]
                                (wsMachine testConfig 0.5 wsSchemes))))). isTrigger e)"
proof -
  let ?m = "run testConfig [CallConnect, SocketOpen 0] (wsMachine testConfig 0.5 wsSchemes)"
  have h: "tag (wsState ?m) = States.OPEN" "changeHandler ?m" by (rule opened_machine)+
  have b: "backoffFn testConfig \<noteq> None" by (simp add: testConfig_def)
  have before: "map (\<lambda>c. (tag (fst c), tag (snd c))) (stateChanges ?m)
      = [(States.INITIAL, States.CONNECTING), (States.CONNECTING, States.OPEN)]"
    by (simp add: machine_defs)
  from pong_timeout_chain [where state = "wsState ?m" and m = ?m and config = testConfig
      and action = Actions.PONG_TIMEOUT and ?s3.0 = "wsState ?m"] h b
  have u: "update Actions.PONG_TIMEOUT (wsState ?m)
        = (wsState ?m, [TRIGGER_ACTION Actions.CLOSE, TRIGGER_ACTION Actions.RECONNECT])"
    and c: "stateChanges (after (transition testConfig Actions.PONG_TIMEOUT ?m))
          = stateChanges ?m
            @ [(wsState ?m, wsState ?m),
               (wsState ?m, wsState ?m\<lparr>tag := States.CLOSED\<rparr>),
               (wsState ?m\<lparr>tag := States.CLOSED\<rparr>,
                wsState ?m\<lparr>reconnectAttempt := reconnectAttempt (wsState ?m) + 1,
                          tag := States.RECONNECTING\<rparr>)]"
    and t: "thrown (transition testConfig Actions.PONG_TIMEOUT ?m) = None"
    by simp_all
  from u have "\<exists>e \<in> set (snd (update Actions.PONG_TIMEOUT (wsState ?m))). isTrigger e"
    by simp
  moreover from c before h(1)
  have "map (\<lambda>c. (tag (fst c), tag (snd c)))
        (stateChanges (after (transition testConfig Actions.PONG_TIMEOUT ?m)))
       = [(States.INITIAL, States.CONNECTING), (States.CONNECTING, States.OPEN),
          (States.OPEN, States.OPEN), (States.OPEN, States.CLOSED),
          (States.CLOSED, States.RECONNECTING)]"
    by simp
  ultimately show ?thesis using h b t by blast
qed

section \<open>Incoming messages\<close>

text \<open>
  C4. The message listener compares the payload with the literal \<^verbatim>\<open>"pong"\<close>: whatever the
  configuration, a message is passed to \<^verbatim>\<open>onMessage\<close> exactly when it is not \<^verbatim>\<open>"pong"\<close>.
  With the custom payloads of the test file (\<^verbatim>\<open>"MyPing"\<close> is sent as the ping), the message
  \<^verbatim>\<open>"MyPong"\<close> reaches \<^verbatim>\<open>onMessage\<close>, before \<^verbatim>\<open>"SomeMessage"\<close>.
\<close>

theorem pong_filter_is_literal:
  "messages (after (runHandler config (onMessage n a) msg m))
     = (if msg = ''pong'' then messages m else messages m @ [msg])
   \<and> messages
        (run (testConfig\<lparr>pingMsg := Some ''MyPing''\<rparr>)
           [CallConnect, SocketOpen 0, TimeoutFires 0,
            SocketMessage 0 ''MyPong'', SocketMessage 0 ''SomeMessage'']
           (wsMachine (testConfig\<lparr>pingMsg := Some ''MyPing''\<rparr>) 0.5 wsSchemes))
       = [''MyPong'', ''SomeMessage'']
   \<and> sent (sockets
        (run (testConfig\<lparr>pingMsg := Some ''MyPing''\<rparr>)
           [CallConnect, SocketOpen 0, TimeoutFires 0,
            SocketMessage 0 ''MyPong'', SocketMessage 0 ''SomeMessage'']
           (wsMachine (testConfig\<lparr>pingMsg := Some ''MyPing''\<rparr>) 0.5 wsSchemes)) 0)
       = [''MyPing'']"
proof -
  have "messages (after (runHandler config (onMessage n a) msg m))
     = (if msg = ''pong'' then messages m else messages m @ [msg])"
    by (simp add: runHandler_def interpreter_messages)
  then show ?thesis by (simp add: machine_defs)
qed

section \<open>Sending\<close>

text \<open>
  C3. The object that \<^verbatim>\<open>wsMachine\<close> returns has no member \<^verbatim>\<open>send\<close>: calling it raises a
  TypeError in every state of the machine and leaves the machine as it was, also when the
  state is OPEN.
\<close>

theorem send_is_no_member:
  "callMember config ''send'' m = Threw TypeError m
   \<and> tag (wsState (run testConfig [CallConnect, SocketOpen 0]
        (wsMachine testConfig 0.5 wsSchemes))) = States.OPEN
   \<and> callMember testConfig ''send''
        (run testConfig [CallConnect, SocketOpen 0] (wsMachine testConfig 0.5 wsSchemes))
       = Threw TypeError
           (run testConfig [CallConnect, SocketOpen 0] (wsMachine testConfig 0.5 wsSchemes))"
  using opened_machine(1) by (simp add: callMember_def)

section \<open>The backoff function of a machine\<close>

text \<open>
  C6, as the claim states it, fails: a configuration object without \<^verbatim>\<open>backoffFn\<close> gets no
  default. With the configuration of the test file, where \<^verbatim>\<open>calcBackoff\<close> is passed, the
  close of the first socket starts the connect timer with the delay
  \<^verbatim>\<open>calcBackoff(1, 0.5)\<close>, 2000. Without the property the RECONNECT of the close listener
  raises a TypeError: no timer is started and the machine stays CLOSED.
\<close>

theorem backoffFn_omitted_counterexample:
  "pending (run testConfig [CallConnect, SocketClose 0] (wsMachine testConfig 0.5 wsSchemes))
     = [(0, TimeoutKey.connect, calcBackoff 1 0.5 None, Actions.CONNECT)]
   \<and> calcBackoff 1 0.5 None = 2000
   \<and> pending (run (testConfig\<lparr>backoffFn := None\<rparr>) [CallConnect, SocketClose 0]
        (wsMachine (testConfig\<lparr>backoffFn := None\<rparr>) 0.5 wsSchemes)) = []
   \<and> tag (wsState (run (testConfig\<lparr>backoffFn := None\<rparr>) [CallConnect, SocketClose 0]
        (wsMachine (testConfig\<lparr>backoffFn := None\<rparr>) 0.5 wsSchemes))) = States.CLOSED
   \<and> thrown (runHandler (testConfig\<lparr>backoffFn := None\<rparr>) (onClose 0 Actions.CLOSE) []
        (run (testConfig\<lparr>backoffFn := None\<rparr>) [CallConnect]
           (wsMachine (testConfig\<lparr>backoffFn := None\<rparr>) 0.5 wsSchemes))) = Some TypeError
   \<and> pending (run (testConfig\<lparr>backoffFn := None\<rparr>) [CallConnect, SocketClose 0]
        (wsMachine (testConfig\<lparr>backoffFn := None\<rparr>) 0.5 wsSchemes))
       \<noteq> [(0, TimeoutKey.connect, calcBackoff 1 0.5 None, Actions.CONNECT)]"
  by (simp add: machine_defs calcBackoff_def)

text \<open>
  C6, amended. \<^verbatim>\<open>backoffFn\<close> is a required property of the configuration. The machine
  keeps the function it was configured with, and the seed, through every run. The one
  transition that starts the connect timer, CLOSED with RECONNECT, gives it the delay that
  the function of the state returns for the counter plus one and the seed, and stores the
  counter plus one: so in every run the pending connect timer waits for the configured
  function applied to the counter of the state and the seed. With a configuration object
  without the property no run reaches RECONNECTING or has a connect timer.
\<close>

theorem backoffFn_from_config:
  "(backoffFn config = Some f \<longrightarrow>
      backoffFn (wsState (run config evs (wsMachine config r acc))) = f
      \<and> randSeed (wsState (run config evs (wsMachine config r acc))) = r
      \<and> (\<forall>p \<in> set (pending (run config evs (wsMachine config r acc))).
            fst (snd p) = TimeoutKey.connect \<longrightarrow>
              fst (snd (snd p))
                = f (reconnectAttempt (wsState (run config evs (wsMachine config r acc)))) r))
   \<and> (tag s = States.CLOSED \<longrightarrow>
        update Actions.RECONNECT s
          = (s\<lparr>reconnectAttempt := reconnectAttempt s + 1, tag := States.RECONNECTING\<rparr>,
             [SCHEDULE_TIMEOUT TimeoutKey.connect
                (backoffFn s (reconnectAttempt s + 1) (randSeed s)) Actions.CONNECT]))
   \<and> ((\<exists>e \<in> set (snd (update a s')). \<exists>millis a'. e = SCHEDULE_TIMEOUT TimeoutKey.connect millis a')
        \<longrightarrow> tag s' = States.CLOSED \<and> a = Actions.RECONNECT)
   \<and> (backoffFn config = None \<longrightarrow>
        tag (wsState (run config evs (wsMachine config r acc))) \<noteq> States.RECONNECTING
        \<and> (\<forall>p \<in> set (pending (run config evs (wsMachine config r acc))).
              fst (snd p) \<noteq> TimeoutKey.connect))"
proof -
  let ?m = "run config evs (wsMachine config r acc)"
  from run_ok [of config evs r acc] have tg: "tagOk ?m" and dl: "delayOk ?m"
    by (simp_all add: machineOk_def)
  have 1: "backoffFn config = Some f \<longrightarrow>
      backoffFn (wsState ?m) = f \<and> randSeed (wsState ?m) = r
      \<and> (\<forall>p \<in> set (pending ?m). fst (snd p) = TimeoutKey.connect \<longrightarrow>
            fst (snd (snd p)) = f (reconnectAttempt (wsState ?m)) r)"
    using dl by (simp add: delayOk_def run_context)
  have 2: "tag s = States.CLOSED \<longrightarrow>
        update Actions.RECONNECT s
          = (s\<lparr>reconnectAttempt := reconnectAttempt s + 1, tag := States.RECONNECTING\<rparr>,
             [SCHEDULE_TIMEOUT TimeoutKey.connect
                (backoffFn s (reconnectAttempt s + 1) (randSeed s)) Actions.CONNECT])"
    by (simp add: update_defs)
  have 3: "(\<exists>e \<in> set (snd (update a s')).
              \<exists>millis a'. e = SCHEDULE_TIMEOUT TimeoutKey.connect millis a')
        \<longrightarrow> tag s' = States.CLOSED \<and> a = Actions.RECONNECT"
    by (cases "tag s'"; cases a) (simp_all add: update_defs)
  have 4: "tag (wsState ?m) \<noteq> States.RECONNECTING
        \<and> (\<forall>p \<in> set (pending ?m). fst (snd p) \<noteq> TimeoutKey.connect)"
    if none: "backoffFn config = None"
  proof -
    have upd: "tag s2 \<noteq> States.RECONNECTING"
      if "tag s1 \<noteq> States.RECONNECTING" "callUpdate config a1 s1 = Inr (s2, es)"
      for a1 s1 s2 es
      using that none
      by (cases "tag s1"; cases a1) (auto simp: callUpdate_def update_defs split: if_splits)
    have t: "tag (wsState ?m) \<noteq> States.RECONNECTING"
    proof (rule run_wsState [where Q = "\<lambda>s. tag s \<noteq> States.RECONNECTING"])
      show "tag s2 \<noteq> States.RECONNECTING"
        if "tag s1 \<noteq> States.RECONNECTING" "callUpdate config a1 s1 = Inr (s2, es)"
        for a1 s1 s2 es
        using that by (rule upd)
    qed (simp_all add: wsMachine_def)
    have "TimeoutKey.connect \<notin> set (live ?m)"
      using tg t by (auto simp: tagOk_def simp del: live_Nil split: States.splits)
    then have "\<forall>p \<in> set (pending ?m). fst (snd p) \<noteq> TimeoutKey.connect"
      by (force simp: live_def)
    with t show ?thesis by simp
  qed
  from 1 2 3 4 show ?thesis by blast
qed

theorem backoffFn_from_config_witness:
  "backoffFn testConfig = Some (\<lambda>attempt seed. calcBackoff attempt seed None)
   \<and> reconnectAttempt (wsState
        (run testConfig [CallConnect, SocketClose 0, TimeoutFires 0, SocketClose 1]
           (wsMachine testConfig 0.5 wsSchemes))) = 2
   \<and> pending (run testConfig [CallConnect, SocketClose 0, TimeoutFires 0, SocketClose 1]
        (wsMachine testConfig 0.5 wsSchemes))
       = [(1, TimeoutKey.connect, calcBackoff 2 0.5 None, Actions.CONNECT)]
   \<and> calcBackoff 2 0.5 None = 5000
   \<and> tag (wsState (wsMachine testConfig 0.5 wsSchemes)
            \<lparr>reconnectAttempt := 1, tag := States.CLOSED\<rparr>) = States.CLOSED
   \<and> snd (update Actions.RECONNECT
        (wsState (wsMachine testConfig 0.5 wsSchemes)
           \<lparr>reconnectAttempt := 1, tag := States.CLOSED\<rparr>))
       = [SCHEDULE_TIMEOUT TimeoutKey.connect 5000 Actions.CONNECT]
   \<and> backoffFn (testConfig\<lparr>backoffFn := None\<rparr>) = None
   \<and> pending (run (testConfig\<lparr>backoffFn := None\<rparr>) [CallConnect, SocketOpen 0]
        (wsMachine (testConfig\<lparr>backoffFn := None\<rparr>) 0.5 wsSchemes))
       = [(0, TimeoutKey.ping, 5, Actions.PING_TIMEOUT)]
   \<and> tag (wsState (run (testConfig\<lparr>backoffFn := None\<rparr>) [CallConnect, SocketOpen 0]
        (wsMachine (testConfig\<lparr>backoffFn := None\<rparr>) 0.5 wsSchemes))) \<noteq> States.RECONNECTING"
proof -
  let ?f = "\<lambda>attempt seed. calcBackoff attempt seed None"
  let ?evs = "[CallConnect, SocketClose 0, TimeoutFires 0, SocketClose 1]"
  let ?m = "run testConfig ?evs (wsMachine testConfig 0.5 wsSchemes)"
  let ?s = "wsState (wsMachine testConfig 0.5 wsSchemes)
      \<lparr>reconnectAttempt := 1, tag := States.CLOSED\<rparr>"
  let ?none = "testConfig\<lparr>backoffFn := None\<rparr>"
  let ?n = "run ?none [CallConnect, SocketOpen 0] (wsMachine ?none 0.5 wsSchemes)"
  have f: "backoffFn testConfig = Some ?f" by (simp add: testConfig_def)
  have n: "backoffFn ?none = None" by simp
  have s: "tag ?s = States.CLOSED" by simp
  have c: "calcBackoff 2 0.5 None = 5000" by (simp add: calcBackoff_def)
  have p: "map (\<lambda>p. (fst p, fst (snd p), snd (snd (snd p)))) (pending ?m)
      = [(1, TimeoutKey.connect, Actions.CONNECT)]"
    and ra: "reconnectAttempt (wsState ?m) = 2"
    by (simp_all add: machine_defs)
  have pn: "pending ?n = [(0, TimeoutKey.ping, 5, Actions.PING_TIMEOUT)]"
    by (simp add: machine_defs)
  note thm1 = backoffFn_from_config
      [where config = testConfig and f = ?f and evs = ?evs and r = "0.5" and acc = wsSchemes
         and s = ?s and a = Actions.RECONNECT and s' = ?s]
  note thm2 = backoffFn_from_config
      [where config = ?none and f = ?f and evs = "[CallConnect, SocketOpen 0]" and r = "0.5"
         and acc = wsSchemes and s = ?s and a = Actions.RECONNECT and s' = ?s]
  from thm1 f have d: "\<forall>p \<in> set (pending ?m). fst (snd p) = TimeoutKey.connect \<longrightarrow>
      fst (snd (snd p)) = calcBackoff (reconnectAttempt (wsState ?m)) 0.5 None"
    by blast
  obtain q where q: "pending ?m = [q]" using p by (cases "pending ?m") auto
  with p d ra have "q = (1, TimeoutKey.connect, calcBackoff 2 0.5 None, Actions.CONNECT)"
    by (cases q) auto
  with q have pm: "pending ?m = [(1, TimeoutKey.connect, calcBackoff 2 0.5 None, Actions.CONNECT)]"
    by simp
  from thm1 s
  have "update Actions.RECONNECT ?s
      = (?s\<lparr>reconnectAttempt := reconnectAttempt ?s + 1, tag := States.RECONNECTING\<rparr>,
         [SCHEDULE_TIMEOUT TimeoutKey.connect
            (backoffFn ?s (reconnectAttempt ?s + 1) (randSeed ?s)) Actions.CONNECT])"
    by blast
  then have u: "snd (update Actions.RECONNECT ?s)
      = [SCHEDULE_TIMEOUT TimeoutKey.connect 5000 Actions.CONNECT]"
    by (simp add: wsMachine_def testConfig_def calcBackoff_def)
  from thm2 n have t: "tag (wsState ?n) \<noteq> States.RECONNECTING" by blast
  from f ra pm c s u n pn t show ?thesis by blast
qed

end
